theory Spec2Isabelle
  imports Complex_Main "HOL-Library.List_Lexorder" "HOL-Library.Sublist"
begin

section \<open>JavaScript strings and numbers\<close>

text \<open>
  A JavaScript string is a sequence of UTF-16 code units. The parameter parser of
  \<^verbatim>\<open>src/lib/maccms.params.ts\<close> looks at code units outside Latin-1 (the full-width
  separators U+FF0C and U+FF1B, the Unicode white space of \<^verbatim>\<open>trim\<close> and \<^verbatim>\<open>\s\<close>), so a
  string is a list of code units, each a natural number below 65536. ASCII literals are
  written \<open>js ''list''\<close>.
\<close>

type_synonym jsstring = "nat list"

definition js :: "string \<Rightarrow> jsstring" where
  "js s = map of_char s"

text \<open>
  White space as \<^verbatim>\<open>String.prototype.trim\<close>, the regular expression class \<^verbatim>\<open>\s\<close> and the
  prefix skipped by \<^verbatim>\<open>parseInt\<close> see it (ECMAScript WhiteSpace and LineTerminator): TAB, LF,
  VT, FF, CR, SPACE, NBSP, U+1680, U+2000..U+200A, U+2028, U+2029, U+202F, U+205F, U+3000
  and U+FEFF.
\<close>

definition isWhiteSpace :: "nat \<Rightarrow> bool" where
  "isWhiteSpace c =
     (c = 9 \<or> c = 10 \<or> c = 11 \<or> c = 12 \<or> c = 13 \<or> c = 32 \<or> c = 160 \<or> c = 5760 \<or>
      (8192 \<le> c \<and> c \<le> 8202) \<or> c = 8232 \<or> c = 8233 \<or> c = 8239 \<or> c = 8287 \<or>
      c = 12288 \<or> c = 65279)"

definition trim :: "jsstring \<Rightarrow> jsstring" where
  "trim s = rev (dropWhile isWhiteSpace (rev (dropWhile isWhiteSpace s)))"

text \<open>
  \<^verbatim>\<open>toLowerCase\<close>: the ASCII capitals move to their small letters; U+212A (Kelvin sign) becomes
  \<open>k\<close> and U+0130 becomes \<open>i\<close> followed by U+0307. Every other code unit is lowered by the
  engine to code units outside ASCII and is left as it is here: the code only compares the
  result with ASCII words.
\<close>

definition lowerUnit :: "nat \<Rightarrow> jsstring" where
  "lowerUnit c =
     (if 65 \<le> c \<and> c \<le> 90 then [c + 32]
      else if c = 8490 then [107]
      else if c = 304 then [105, 775]
      else [c])"

definition toLowerCase :: "jsstring \<Rightarrow> jsstring" where
  "toLowerCase s = concat (map lowerUnit s)"

text \<open>
  Truthiness of an optional string: \<^verbatim>\<open>undefined\<close> and the empty string are falsy.
\<close>

fun truthy :: "jsstring option \<Rightarrow> bool" where
  "truthy None = False"
| "truthy (Some s) = (s \<noteq> [])"

text \<open>
  \<^verbatim>\<open>parseInt(s, radix)\<close> for a radix from 2 to 36 other than 16 (the code calls it with 10 and
  36 only): skip leading white space, read one optional sign, read the longest run of
  digits of the radix; no digit gives \<^verbatim>\<open>NaN\<close>, here \<open>None\<close>. The result is the mathematical
  integer; the engine rounds it to a double beyond \<open>2^53\<close>, which no comparison made by the
  code can observe.
\<close>

definition digitValue :: "nat \<Rightarrow> nat option" where
  "digitValue c =
     (if 48 \<le> c \<and> c \<le> 57 then Some (c - 48)
      else if 97 \<le> c \<and> c \<le> 122 then Some (c - 87)
      else if 65 \<le> c \<and> c \<le> 90 then Some (c - 55)
      else None)"

definition isRadixDigit :: "nat \<Rightarrow> nat \<Rightarrow> bool" where
  "isRadixDigit radix c = (case digitValue c of None \<Rightarrow> False | Some d \<Rightarrow> d < radix)"

definition digitsValue :: "nat \<Rightarrow> jsstring \<Rightarrow> nat" where
  "digitsValue radix z = foldl (\<lambda>a c. a * radix + the (digitValue c)) 0 z"

definition parseInt :: "jsstring \<Rightarrow> nat \<Rightarrow> int option" where
  "parseInt s radix =
     (let s1 = dropWhile isWhiteSpace s;
          neg = (s1 \<noteq> [] \<and> hd s1 = 45);
          s2 = (if s1 \<noteq> [] \<and> (hd s1 = 43 \<or> hd s1 = 45) then tl s1 else s1);
          z = takeWhile (isRadixDigit radix) s2
      in if z = [] then None
         else Some ((if neg then - 1 else 1) * int (digitsValue radix z)))"

section \<open>The parameter processor\<close>

text \<open>
  \<^verbatim>\<open>MacCMSParams\<close>: the raw query parameters the processor reads, each a string or absent.
  The names carry the prefix \<open>q_\<close>; \<open>q_ac\<close> is the \<^verbatim>\<open>ac\<close> parameter.
\<close>

record MacCMSParams =
  q_ac :: "jsstring option"
  q_t :: "jsstring option"
  q_pg :: "jsstring option"
  q_wd :: "jsstring option"
  q_ids :: "jsstring option"
  q_h :: "jsstring option"
  q_limit :: "jsstring option"
  q_order :: "jsstring option"
  q_by :: "jsstring option"
  q_area :: "jsstring option"
  q_year :: "jsstring option"
  q_start :: "jsstring option"
  q_end :: "jsstring option"

datatype action = ActionList | ActionDetail | ActionSearch | ActionCategory

definition DEFAULT_PAGE :: int where "DEFAULT_PAGE = 1"
definition DEFAULT_LIMIT :: int where "DEFAULT_LIMIT = 20"
definition MAX_LIMIT :: int where "MAX_LIMIT = 100"
definition MIN_LIMIT :: int where "MIN_LIMIT = 1"

definition parsePage :: "jsstring option \<Rightarrow> int" where
  "parsePage pageStr =
     (if \<not> truthy pageStr then DEFAULT_PAGE
      else case parseInt (the pageStr) 10 of
             None \<Rightarrow> DEFAULT_PAGE
           | Some page \<Rightarrow> if page < 1 then DEFAULT_PAGE else page)"

definition parseLimit :: "jsstring option \<Rightarrow> int" where
  "parseLimit limitStr =
     (if \<not> truthy limitStr then DEFAULT_LIMIT
      else case parseInt (the limitStr) 10 of
             None \<Rightarrow> DEFAULT_LIMIT
           | Some limit \<Rightarrow>
               if limit < MIN_LIMIT then MIN_LIMIT
               else if limit > MAX_LIMIT then MAX_LIMIT
               else limit)"

text \<open>
  \<^verbatim>\<open>parseKeyword\<close>. \<^verbatim>\<open>replace(/[<>"'&]/g, '')\<close> deletes the five code units 60, 62, 34, 39
  and 38; \<^verbatim>\<open>replace(/\s+/g, ' ')\<close> puts one SPACE for every maximal run of white space;
  \<^verbatim>\<open>substring(0, 100)\<close> keeps the first 100 code units.
\<close>

definition isHtmlSpecial :: "nat \<Rightarrow> bool" where
  "isHtmlSpecial c = (c = 60 \<or> c = 62 \<or> c = 34 \<or> c = 39 \<or> c = 38)"

definition stripHtmlSpecial :: "jsstring \<Rightarrow> jsstring" where
  "stripHtmlSpecial s = filter (\<lambda>c. \<not> isHtmlSpecial c) s"

function collapseWhitespace :: "jsstring \<Rightarrow> jsstring" where
  "collapseWhitespace [] = []"
| "collapseWhitespace (c # cs) =
     (if isWhiteSpace c then 32 # collapseWhitespace (dropWhile isWhiteSpace cs)
      else c # collapseWhitespace cs)"
  by pat_completeness auto
termination
  by (relation "measure length") (simp_all add: length_dropWhile_le less_Suc_eq_le)

definition parseKeyword :: "jsstring option \<Rightarrow> jsstring option" where
  "parseKeyword keyword =
     (if \<not> truthy keyword \<or> trim (the keyword) = [] then None
      else Some (take 100 (collapseWhitespace (stripHtmlSpecial (trim (the keyword))))))"

definition parseCategoryId :: "jsstring option \<Rightarrow> int option" where
  "parseCategoryId categoryStr =
     (if \<not> truthy categoryStr then None else parseInt (the categoryStr) 10)"

text \<open>
  \<^verbatim>\<open>parseVideoIds\<close>. The separator expression matches maximal runs of comma, full-width
  comma (U+FF0C), semicolon, full-width semicolon (U+FF1B) and white space.
  \<^verbatim>\<open>String.prototype.split\<close> returns the pieces between the matches, an empty piece
  before a match at the start and after a match at the end included.
\<close>

definition isIdSeparator :: "nat \<Rightarrow> bool" where
  "isIdSeparator c = (c = 44 \<or> c = 65292 \<or> c = 59 \<or> c = 65307 \<or> isWhiteSpace c)"

function splitRuns :: "(nat \<Rightarrow> bool) \<Rightarrow> jsstring \<Rightarrow> jsstring list" where
  "splitRuns sep [] = [[]]"
| "splitRuns sep (c # cs) =
     (if sep c then [] # splitRuns sep (dropWhile sep cs)
      else (case splitRuns sep cs of
              [] \<Rightarrow> [[c]]
            | piece # pieces \<Rightarrow> (c # piece) # pieces))"
  by pat_completeness auto
termination
  by (relation "measure (\<lambda>(sep, s). length s)") (simp_all add: length_dropWhile_le less_Suc_eq_le)

definition isAlnum :: "nat \<Rightarrow> bool" where
  "isAlnum c = ((97 \<le> c \<and> c \<le> 122) \<or> (65 \<le> c \<and> c \<le> 90) \<or> (48 \<le> c \<and> c \<le> 57))"

definition isValidId :: "jsstring \<Rightarrow> bool" where
  "isValidId ident = (length ident > 0 \<and> list_all isAlnum ident)"

definition parseVideoIds :: "jsstring option \<Rightarrow> jsstring list option" where
  "parseVideoIds idsStr =
     (if \<not> truthy idsStr \<or> trim (the idsStr) = [] then None
      else Some (take 10 (filter isValidId (map trim (splitRuns isIdSeparator (the idsStr))))))"



text \<open>
  The filters. The calendar year and the clock are read from the engine, and a date string
  that is not a 10 or 13 digit timestamp is handed to the engine's \<^verbatim>\<open>Date\<close> constructor;
  the three are parameters. A date is its number of milliseconds since the epoch.
\<close>

record js_engine =
  e_now :: int
  e_fullYear :: int
  e_dateParse :: "jsstring \<Rightarrow> int option"

datatype order_kind = Latest | Longest | Shortest | TopRated | MostViewed

definition parseOrder :: "jsstring option \<Rightarrow> jsstring option \<Rightarrow> order_kind" where
  "parseOrder ord_param by_param =
     (let orderStr = toLowerCase
            (if truthy ord_param then the ord_param
             else if truthy by_param then the by_param else [])
      in if orderStr \<in> {js ''time'', js ''addtime'', js ''latest'', js ''desc''} then Latest
         else if orderStr \<in> {js ''duration'', js ''long'', js ''longest''} then Longest
         else if orderStr \<in> {js ''short'', js ''shortest''} then Shortest
         else if orderStr \<in> {js ''score'', js ''rate'', js ''rating'', js ''top''} then TopRated
         else if orderStr \<in> {js ''hits'', js ''views'', js ''popular''} then MostViewed
         else Latest)"

definition isDecimalDigit :: "nat \<Rightarrow> bool" where
  "isDecimalDigit c = (48 \<le> c \<and> c \<le> 57)"

definition parseDate :: "js_engine \<Rightarrow> jsstring \<Rightarrow> int option" where
  "parseDate eng dateStr =
     (if length dateStr = 10 \<and> list_all isDecimalDigit dateStr
        then Some (the (parseInt dateStr 10) * 1000)
      else if length dateStr = 13 \<and> list_all isDecimalDigit dateStr
        then Some (the (parseInt dateStr 10))
      else e_dateParse eng dateStr)"

record time_range =
  tr_start :: "int option"
  tr_end :: "int option"

definition parseTimeRange ::
  "js_engine \<Rightarrow> jsstring option \<Rightarrow> jsstring option \<Rightarrow> jsstring option \<Rightarrow> time_range option" where
  "parseTimeRange eng start_param end_param hours =
     (let byHours =
            (if truthy hours then
               (case parseInt (the hours) 10 of
                  None \<Rightarrow> None
                | Some hoursNum \<Rightarrow>
                    if hoursNum > 0 \<and> hoursNum \<le> 8760
                    then Some \<lparr>tr_start = Some (e_now eng - hoursNum * 60 * 60 * 1000),
                               tr_end = Some (e_now eng)\<rparr>
                    else None)
             else None)
      in case byHours of
           Some r \<Rightarrow> Some r
         | None \<Rightarrow>
             (let s = (if truthy start_param then parseDate eng (the start_param) else None);
                  e = (if truthy end_param then parseDate eng (the end_param) else None)
              in if s = None \<and> e = None then None
                 else Some \<lparr>tr_start = s, tr_end = e\<rparr>))"

record filters =
  f_area :: "jsstring option"
  f_year :: "jsstring option"
  f_order :: order_kind
  f_timeRange :: "time_range option"

definition parseFilters :: "js_engine \<Rightarrow> MacCMSParams \<Rightarrow> filters" where
  "parseFilters eng params =
     \<lparr>f_area =
        (if truthy (q_area params) \<and> trim (the (q_area params)) \<noteq> []
         then Some (trim (the (q_area params))) else None),
      f_year =
        (if truthy (q_year params) \<and> trim (the (q_year params)) \<noteq> [] then
           (case parseInt (the (q_year params)) 10 of
              None \<Rightarrow> None
            | Some year \<Rightarrow>
                if year \<ge> 1900 \<and> year \<le> e_fullYear eng then q_year params else None)
         else None),
      f_order = parseOrder (q_order params) (q_by params),
      f_timeRange = parseTimeRange eng (q_start params) (q_end params) (q_h params)\<rparr>"

text \<open>\<^verbatim>\<open>determineAction\<close>, branch by branch as the source has it.\<close>

definition determineAction :: "MacCMSParams \<Rightarrow> action" where
  "determineAction params =
     (let ac = map_option toLowerCase (q_ac params) in
      if ac = Some (js ''detail'') \<or> truthy (q_ids params) then ActionDetail
      else if ac = Some (js ''list'') \<or> ac = Some (js ''videolist'') then
        (if truthy (q_wd params) \<and> trim (the (q_wd params)) \<noteq> [] then ActionSearch
         else if q_t params = Some (js ''0'') \<or> ac = Some (js ''list'') then ActionCategory
         else ActionList)
      else if truthy (q_wd params) \<and> trim (the (q_wd params)) \<noteq> [] then ActionSearch
      else if truthy (q_ids params) then ActionDetail
      else ActionList)"

record ProcessedParams =
  action :: action
  keyword :: "jsstring option"
  page :: int
  limit :: int
  categoryId :: "int option"
  videoIds :: "jsstring list option"
  filters :: filters

definition parseParams :: "js_engine \<Rightarrow> MacCMSParams \<Rightarrow> ProcessedParams" where
  "parseParams eng params =
     \<lparr>action = determineAction params,
      keyword = parseKeyword (q_wd params),
      page = parsePage (q_pg params),
      limit = parseLimit (q_limit params),
      categoryId = parseCategoryId (q_t params),
      videoIds = parseVideoIds (q_ids params),
      filters = parseFilters eng params\<rparr>"

text \<open>
  \<^verbatim>\<open>processParams\<close> copies the entries of the query into an object, a later entry of a key
  replacing an earlier one, and parses the object.
\<close>

definition collectParams :: "(jsstring \<times> jsstring) list \<Rightarrow> MacCMSParams" where
  "collectParams entries =
     (let m = fold (\<lambda>(k, v) m. m(k \<mapsto> v)) entries Map.empty in
      \<lparr>q_ac = m (js ''ac''), q_t = m (js ''t''), q_pg = m (js ''pg''), q_wd = m (js ''wd''),
       q_ids = m (js ''ids''), q_h = m (js ''h''), q_limit = m (js ''limit''),
       q_order = m (js ''order''), q_by = m (js ''by''), q_area = m (js ''area''),
       q_year = m (js ''year''), q_start = m (js ''start''), q_end = m (js ''end'')\<rparr>)"

definition processParams :: "js_engine \<Rightarrow> (jsstring \<times> jsstring) list \<Rightarrow> ProcessedParams" where
  "processParams eng searchParams = parseParams eng (collectParams searchParams)"

text \<open>
  \<^verbatim>\<open>validateParams\<close>. The four messages are the source's strings, as code units:
  "search keyword must not be empty", "video ID must not be empty", "page must be greater
  than 0" and "page size must be between 1 and 100".
\<close>

definition MSG_KEYWORD_EMPTY :: jsstring where
  "MSG_KEYWORD_EMPTY = [25628, 32034, 20851, 38190, 35789, 19981, 33021, 20026, 31354]"

definition MSG_VIDEO_ID_EMPTY :: jsstring where
  "MSG_VIDEO_ID_EMPTY = [35270, 39057, 73, 68, 19981, 33021, 20026, 31354]"

definition MSG_PAGE :: jsstring where
  "MSG_PAGE = [39029, 30721, 24517, 39035, 22823, 20110, 48]"

definition MSG_LIMIT :: jsstring where
  "MSG_LIMIT = [27599, 39029, 25968, 37327, 24517, 39035, 22312, 49, 45, 49, 48, 48, 20043, 38388]"

record validation =
  valid :: bool
  error :: "jsstring option"

definition validateParams :: "ProcessedParams \<Rightarrow> validation" where
  "validateParams params =
     (if action params = ActionSearch \<and> \<not> truthy (keyword params)
        then \<lparr>valid = False, error = Some MSG_KEYWORD_EMPTY\<rparr>
      else if action params = ActionDetail \<and>
              (videoIds params = None \<or> length (the (videoIds params)) = 0)
        then \<lparr>valid = False, error = Some MSG_VIDEO_ID_EMPTY\<rparr>
      else if page params < 1
        then \<lparr>valid = False, error = Some MSG_PAGE\<rparr>
      else if limit params < MIN_LIMIT \<or> limit params > MAX_LIMIT
        then \<lparr>valid = False, error = Some MSG_LIMIT\<rparr>
      else \<lparr>valid = True, error = None\<rparr>)"

text \<open>
  Two values for concrete evaluations: the parameter object of an empty query, and an
  engine whose clock stands at the epoch and whose \<^verbatim>\<open>Date\<close> constructor rejects every
  string.
\<close>

definition noParams :: MacCMSParams where
  "noParams = \<lparr>q_ac = None, q_t = None, q_pg = None, q_wd = None, q_ids = None, q_h = None,
     q_limit = None, q_order = None, q_by = None, q_area = None, q_year = None,
     q_start = None, q_end = None\<rparr>"

definition epochEngine :: js_engine where
  "epochEngine = \<lparr>e_now = 0, e_fullYear = 1970, e_dateParse = (\<lambda>s. None)\<rparr>"

section \<open>The reliability layer\<close>

text \<open>
  A thrown value. Every \<^verbatim>\<open>throw\<close> of the repository and of the runtime throws an object;
  the fields are the ones the handlers read: \<^verbatim>\<open>name\<close>, \<^verbatim>\<open>code\<close>, \<^verbatim>\<open>response?.status\<close>,
  \<^verbatim>\<open>type\<close> and \<^verbatim>\<open>message\<close>, each absent (\<open>None\<close>) or present.
\<close>

record thrown =
  t_name :: "jsstring option"
  t_code :: "jsstring option"
  t_status :: "int option"
  t_type :: "jsstring option"
  t_message :: "jsstring option"

datatype ErrorType = VALIDATION | API_ERROR | NETWORK_ERROR | RATE_LIMIT | TIMEOUT | UNKNOWN

fun errorTypeString :: "ErrorType \<Rightarrow> jsstring" where
  "errorTypeString VALIDATION = js ''VALIDATION_ERROR''"
| "errorTypeString API_ERROR = js ''API_ERROR''"
| "errorTypeString NETWORK_ERROR = js ''NETWORK_ERROR''"
| "errorTypeString RATE_LIMIT = js ''RATE_LIMIT_ERROR''"
| "errorTypeString TIMEOUT = js ''TIMEOUT_ERROR''"
| "errorTypeString UNKNOWN = js ''UNKNOWN_ERROR''"

definition shouldNotRetry :: "thrown \<Rightarrow> bool" where
  "shouldNotRetry err =
     (if (case t_status err of None \<Rightarrow> False | Some st \<Rightarrow> st \<ge> 400 \<and> st < 500) then True
      else if t_type err = Some (errorTypeString VALIDATION) then True
      else False)"

text \<open>
  \<^verbatim>\<open>withRetry\<close>. The operation \<open>fn\<close> is an effectful thunk: it takes the state of the world
  and returns what it threw (\<open>Inl\<close>) or returned (\<open>Inr\<close>) with the new state. The result
  records the outcome, the final state, how often \<open>fn\<close> was invoked and the waits slept,
  in order. \<^verbatim>\<open>maxRetries\<close>, \<^verbatim>\<open>delay\<close> and \<^verbatim>\<open>backoff\<close> are integers. The loop runs
  \<^verbatim>\<open>attempt\<close> from 1 while \<^verbatim>\<open>attempt <= maxRetries\<close>; the \<^verbatim>\<open>throw lastError\<close> after it is
  reached only when the loop body never ran, and then throws \<^verbatim>\<open>undefined\<close> (\<open>Inl None\<close>).
\<close>

record ('a, 's) retry_result =
  outcome :: "thrown option + 'a"
  final :: 's
  calls :: nat
  sleeps :: "int list"

function withRetry_loop ::
  "('s \<Rightarrow> (thrown + 'a) \<times> 's) \<Rightarrow> int \<Rightarrow> int \<Rightarrow> int \<Rightarrow> int \<Rightarrow> thrown option \<Rightarrow> 's \<Rightarrow> nat \<Rightarrow> int list
     \<Rightarrow> ('a, 's) retry_result" where
  "withRetry_loop fn maxRetries delay backoff attempt lastError s n ws =
     (if attempt \<le> maxRetries then
        (case fn s of
           (Inr v, s') \<Rightarrow> \<lparr>outcome = Inr v, final = s', calls = Suc n, sleeps = ws\<rparr>
         | (Inl err, s') \<Rightarrow>
             if attempt = maxRetries
               then \<lparr>outcome = Inl (Some err), final = s', calls = Suc n, sleeps = ws\<rparr>
             else if shouldNotRetry err
               then \<lparr>outcome = Inl (Some err), final = s', calls = Suc n, sleeps = ws\<rparr>
             else withRetry_loop fn maxRetries delay backoff (attempt + 1) (Some err) s' (Suc n)
                    (ws @ [delay * backoff ^ nat (attempt - 1)]))
      else \<lparr>outcome = Inl lastError, final = s, calls = n, sleeps = ws\<rparr>)"
  by pat_completeness auto
termination
  by (relation "measure (\<lambda>(fn, maxRetries, delay, backoff, attempt, lastError, s, n, ws).
        nat (maxRetries + 1 - attempt))") auto

declare withRetry_loop.simps [simp del]

definition withRetry ::
  "('s \<Rightarrow> (thrown + 'a) \<times> 's) \<Rightarrow> int \<Rightarrow> int \<Rightarrow> int \<Rightarrow> 's \<Rightarrow> ('a, 's) retry_result" where
  "withRetry fn maxRetries delay backoff s =
     withRetry_loop fn maxRetries delay backoff 1 None s 0 []"

text \<open>
  The error handler. The messages are the source's strings as code units: "request timed
  out, retry later", "network connection failed", "too many requests, retry later",
  "bad request parameters", "internal server error" and "unknown error, retry later".
\<close>

datatype details = OriginalError "jsstring option"

record ErrorDetail =
  ed_type :: ErrorType
  ed_message :: jsstring
  ed_details :: "details option"
  ed_timestamp :: int

definition createError :: "int \<Rightarrow> ErrorType \<Rightarrow> jsstring \<Rightarrow> details option \<Rightarrow> ErrorDetail" where
  "createError now ty message dets =
     \<lparr>ed_type = ty, ed_message = message, ed_details = dets, ed_timestamp = now\<rparr>"

definition MSG_TIMEOUT :: jsstring where
  "MSG_TIMEOUT = [35831, 27714, 36229, 26102, 65292, 35831, 31245, 21518, 37325, 35797]"

definition MSG_NETWORK :: jsstring where
  "MSG_NETWORK = [32593, 32476, 36830, 25509, 22833, 36133]"

definition MSG_RATE_LIMIT :: jsstring where
  "MSG_RATE_LIMIT =
     [35831, 27714, 36807, 20110, 39057, 32321, 65292, 35831, 31245, 21518, 37325, 35797]"

definition MSG_BAD_REQUEST :: jsstring where
  "MSG_BAD_REQUEST = [35831, 27714, 21442, 25968, 38169, 35823]"

definition MSG_SERVER_ERROR :: jsstring where
  "MSG_SERVER_ERROR = [26381, 21153, 22120, 20869, 37096, 38169, 35823]"

definition MSG_UNKNOWN :: jsstring where
  "MSG_UNKNOWN = [26410, 30693, 38169, 35823, 65292, 35831, 31245, 21518, 37325, 35797]"

definition handleApiError :: "int \<Rightarrow> thrown \<Rightarrow> ErrorDetail" where
  "handleApiError now err =
     (if t_name err = Some (js ''AbortError'') \<or> t_code err = Some (js ''ABORT_ERR'')
        then createError now TIMEOUT MSG_TIMEOUT None
      else if t_code err = Some (js ''ENOTFOUND'') \<or> t_code err = Some (js ''ECONNREFUSED'')
        then createError now NETWORK_ERROR MSG_NETWORK None
      else if t_status err = Some 429
        then createError now RATE_LIMIT MSG_RATE_LIMIT None
      else if (case t_status err of None \<Rightarrow> False | Some st \<Rightarrow> st \<ge> 400 \<and> st < 500)
        then createError now API_ERROR MSG_BAD_REQUEST None
      else if (case t_status err of None \<Rightarrow> False | Some st \<Rightarrow> st \<ge> 500)
        then createError now API_ERROR MSG_SERVER_ERROR None
      else createError now UNKNOWN MSG_UNKNOWN (Some (OriginalError (t_message err))))"

definition handleValidationError :: "int \<Rightarrow> jsstring \<Rightarrow> ErrorDetail" where
  "handleValidationError now message = createError now VALIDATION message None"

section \<open>The transformer and the response envelope\<close>

text \<open>
  A JavaScript number that can be \<^verbatim>\<open>NaN\<close> or infinite: the page count is computed with a
  division.
\<close>

datatype jsnumber = Finite int | NaN | Infinity | NegInfinity

text \<open>
  \<^verbatim>\<open>Math.ceil(total_count / limit)\<close> for an integer or absent \<^verbatim>\<open>total_count\<close> and an
  integer \<^verbatim>\<open>limit\<close>: \<^verbatim>\<open>undefined / limit\<close> and \<^verbatim>\<open>0 / 0\<close> are \<^verbatim>\<open>NaN\<close>, another division by
  zero is infinite.
\<close>

definition ceilQuotient :: "int option \<Rightarrow> int \<Rightarrow> jsnumber" where
  "ceilQuotient a b =
     (case a of
        None \<Rightarrow> NaN
      | Some n \<Rightarrow>
          if b = 0 then (if n = 0 then NaN else if n > 0 then Infinity else NegInfinity)
          else Finite (- ((- n) div b)))"

text \<open>
  The legacy record. \<^verbatim>\<open>transformVideo(video, vodId)\<close> writes \<^verbatim>\<open>vodId\<close> to \<^verbatim>\<open>vod_id\<close>; its
  other fields (titles, tags, pictures, dates, scores, play URL and the constants) are
  computed from the upstream video and the wall clock and never from \<^verbatim>\<open>vodId\<close>. They are
  one component here, given by the function \<open>otherFields\<close> of the upstream video; the upstream
  video itself is a type parameter. The provider client returns the parsed JSON as it is,
  and the computation of the fields throws on a record that lacks what it reads (a
  \<^verbatim>\<open>TypeError\<close> from \<^verbatim>\<open>video.title.replace\<close> when the record has no string \<^verbatim>\<open>title\<close>, for
  one): \<open>otherFields\<close> gives what is thrown (\<open>Inl\<close>) or the fields (\<open>Inr\<close>), and so does
  \<^verbatim>\<open>transformVideo\<close>. The identifier \<^verbatim>\<open>vod_id\<close> is a JavaScript number.
\<close>

record 'f MacCMSVideo =
  vod_id :: jsnumber
  vod_fields :: 'f

definition transformVideo ::
  "('v \<Rightarrow> thrown + 'f) \<Rightarrow> 'v \<Rightarrow> jsnumber \<Rightarrow> thrown + 'f MacCMSVideo" where
  "transformVideo otherFields video vodId =
     (case otherFields video of
        Inl err \<Rightarrow> Inl err
      | Inr fs \<Rightarrow> Inr \<lparr>vod_id = vodId, vod_fields = fs\<rparr>)"

text \<open>
  \<^verbatim>\<open>cleanTitle\<close>, the step of \<^verbatim>\<open>transformVideo\<close> that computes \<^verbatim>\<open>vod_name\<close> from the title:
  the five HTML characters deleted, white space collapsed, trimmed, the first 100 code
  units kept.
\<close>

definition cleanTitle :: "jsstring \<Rightarrow> jsstring" where
  "cleanTitle title = take 100 (trim (collapseWhitespace (stripHtmlSpecial title)))"

text \<open>
  \<^verbatim>\<open>Array.prototype.map\<close> with a callback that may throw: the first exception leaves the
  \<^verbatim>\<open>map\<close>, and no array is returned.
\<close>

fun collectVideos :: "(thrown + 'a) list \<Rightarrow> thrown + 'a list" where
  "collectVideos [] = Inr []"
| "collectVideos (Inl err # rs) = Inl err"
| "collectVideos (Inr x # rs) =
     (case collectVideos rs of Inl err \<Rightarrow> Inl err | Inr xs \<Rightarrow> Inr (x # xs))"

record MacCMSCategory =
  type_id :: int
  type_name :: jsstring
  type_en :: jsstring
  type_sort :: int
  type_mid :: int
  type_pid :: int
  type_status :: int

definition generateCategories :: "MacCMSCategory list" where
  "generateCategories =
     [\<lparr>type_id = 3, type_name = [20262, 29702, 29255], type_en = js ''ethics'', type_sort = 3,
       type_mid = 1, type_pid = 0, type_status = 1\<rparr>]"

record error_info =
  ei_type :: jsstring
  ei_timestamp :: int
  ei_details :: "details option"

text \<open>
  The envelope. A key an envelope does not have is \<open>None\<close>: the category envelope has no
  \<^verbatim>\<open>list\<close>, the others no \<^verbatim>\<open>class\<close>, and only the error envelope has \<^verbatim>\<open>error\<close>.
\<close>

record 'f MacCMSResponse =
  code :: int
  msg :: jsstring
  r_page :: int
  pagecount :: jsnumber
  r_limit :: int
  total :: int
  r_list :: "'f MacCMSVideo list option"
  r_class :: "MacCMSCategory list option"
  r_error :: "error_info option"

text \<open>The upstream search response, read from JSON: each key present or absent.\<close>

record 'v EpornerSearchResponse =
  total_count :: "int option"
  current_page :: "int option"
  total_pages :: "int option"
  videos :: "'v list option"

definition MSG_DATA_LIST :: jsstring where
  "MSG_DATA_LIST = [25968, 25454, 21015, 34920]"

text \<open>Truthiness of an optional number: \<^verbatim>\<open>undefined\<close> and 0 are falsy.\<close>

fun truthyNumber :: "int option \<Rightarrow> bool" where
  "truthyNumber None = False"
| "truthyNumber (Some n) = (n \<noteq> 0)"

definition transformSearchResponse ::
  "('v \<Rightarrow> thrown + 'f) \<Rightarrow> 'v EpornerSearchResponse \<Rightarrow> int \<Rightarrow> int
     \<Rightarrow> thrown + 'f MacCMSResponse" where
  "transformSearchResponse otherFields epornerResponse pg lmt =
     (let vids = (case videos epornerResponse of None \<Rightarrow> [] | Some vs \<Rightarrow> vs)
      in case collectVideos
                (map (\<lambda>(index, video).
                        transformVideo otherFields video (Finite ((pg - 1) * lmt + int index + 1)))
                   (enumerate 0 vids)) of
           Inl err \<Rightarrow> Inl err
         | Inr transformedVideos \<Rightarrow>
             Inr \<lparr>code = 1,
                  msg = MSG_DATA_LIST,
                  r_page = (if truthyNumber (current_page epornerResponse)
                            then the (current_page epornerResponse) else pg),
                  pagecount = (if truthyNumber (total_pages epornerResponse)
                               then Finite (the (total_pages epornerResponse))
                               else ceilQuotient (total_count epornerResponse) lmt),
                  r_limit = lmt,
                  total = (if truthyNumber (total_count epornerResponse)
                           then the (total_count epornerResponse) else int (length vids)),
                  r_list = Some transformedVideos,
                  r_class = None,
                  r_error = None\<rparr>)"

definition createErrorResponse :: "ErrorDetail \<Rightarrow> 'f MacCMSResponse" where
  "createErrorResponse err =
     \<lparr>code = 0, msg = ed_message err, r_page = 1, pagecount = Finite 0, r_limit = 0, total = 0,
      r_list = Some [], r_class = None,
      r_error = Some \<lparr>ei_type = errorTypeString (ed_type err), ei_timestamp = ed_timestamp err,
                       ei_details = ed_details err\<rparr>\<rparr>"

section \<open>The cache manager's response headers\<close>

datatype cache_type = CacheSearch | CacheDetail | CacheCategory | CacheError | CacheDefault

fun getCacheTime :: "cache_type \<Rightarrow> int" where
  "getCacheTime CacheSearch = 600"
| "getCacheTime CacheDetail = 1800"
| "getCacheTime CacheCategory = 3600"
| "getCacheTime CacheError = 60"
| "getCacheTime CacheDefault = 300"

text \<open>
  A response: the JSON body, and the cache type and the time to live that
  \<^verbatim>\<open>createCachedResponse\<close> writes to the headers.
\<close>

record 'f response =
  body :: "'f MacCMSResponse"
  cacheType :: cache_type
  cacheTTL :: int

definition createCachedResponse :: "'f MacCMSResponse \<Rightarrow> cache_type \<Rightarrow> 'f response" where
  "createCachedResponse data ty = \<lparr>body = data, cacheType = ty, cacheTTL = getCacheTime ty\<rparr>"

section \<open>The request dispatcher\<close>

text \<open>
  The world outside the repository's code, over a state \<open>'s\<close>: the engine's clock and date
  parser at a state, the text of the \<^verbatim>\<open>TypeError\<close> the engine raises when a property of
  \<^verbatim>\<open>undefined\<close> is read, what the engine's \<^verbatim>\<open>parseInt\<close> returns for a string and a radix
  when the integer that the digits denote is beyond \<^verbatim>\<open>2^53\<close>, the two network calls of the
  provider client and the configuration's \<^verbatim>\<open>getCacheTime\<close>. A call takes the state and
  gives what it threw or returned, with the new state. Console output and the latency
  samples of the performance monitor do not reach a response and are left out.
\<close>

record ('s, 'v) world =
  w_engine :: "'s \<Rightarrow> js_engine"
  w_typeErrorMessage :: jsstring
  w_parseIntLarge :: "jsstring \<Rightarrow> nat \<Rightarrow> jsnumber"
  w_search ::
    "jsstring \<Rightarrow> int \<Rightarrow> int \<Rightarrow> order_kind \<Rightarrow> 's \<Rightarrow> (thrown + 'v EpornerSearchResponse) \<times> 's"
  w_getVideoById :: "jsstring \<Rightarrow> 's \<Rightarrow> (thrown + 'v) \<times> 's"
  w_getCacheTime :: "'s \<Rightarrow> (thrown + int) \<times> 's"

definition typeError :: "('s, 'v) world \<Rightarrow> thrown" where
  "typeError w =
     \<lparr>t_name = Some (js ''TypeError''), t_code = None, t_status = None, t_type = None,
      t_message = Some (w_typeErrorMessage w)\<rparr>"

definition dateNow :: "('s, 'v) world \<Rightarrow> 's \<Rightarrow> int" where
  "dateNow w s = e_now (w_engine w s)"

text \<open>
  The two steps every error path of the route takes: render the error detail, and answer
  with the cache type \<^verbatim>\<open>error\<close>.
\<close>

definition errorResponse :: "ErrorDetail \<Rightarrow> 'f response" where
  "errorResponse detail = createCachedResponse (createErrorResponse detail) CacheError"

definition MSG_NEED_KEYWORD :: jsstring where
  "MSG_NEED_KEYWORD = [35831, 25552, 20379, 25628, 32034, 20851, 38190, 35789]"

definition MSG_BAD_KEYWORD :: jsstring where
  "MSG_BAD_KEYWORD = [25628, 32034, 20851, 38190, 35789, 26080, 25928]"

definition MSG_NEED_VIDEO_ID :: jsstring where
  "MSG_NEED_VIDEO_ID = [35831, 25552, 20379, 35270, 39057, 73, 68]"

definition MSG_NO_VALID_DATA :: jsstring where
  "MSG_NO_VALID_DATA = [26410, 25214, 21040, 26377, 25928, 30340, 35270, 39057, 25968, 25454]"

definition sanitizeQuery :: "jsstring \<Rightarrow> jsstring" where
  "sanitizeQuery query = take 100 (stripHtmlSpecial (trim query))"

text \<open>
  \<^verbatim>\<open>handleVideoSearch\<close> and \<^verbatim>\<open>handleVideoList\<close>. The \<^verbatim>\<open>try\<close> block holds the provider call
  and the transformation, so what either throws reaches the \<^verbatim>\<open>catch\<close> block. That block
  reads the caught value; were it \<^verbatim>\<open>undefined\<close>, the read would raise a \<^verbatim>\<open>TypeError\<close> that
  leaves the handler (\<open>Inl\<close>).
\<close>

definition handleVideoSearch ::
  "('s, 'v) world \<Rightarrow> ('v \<Rightarrow> thrown + 'f) \<Rightarrow> ProcessedParams \<Rightarrow> 's \<Rightarrow> (thrown + 'f response) \<times> 's" where
  "handleVideoSearch w otherFields params s =
     (if \<not> truthy (keyword params)
        then (Inr (errorResponse (handleValidationError (dateNow w s) MSG_NEED_KEYWORD)), s)
      else
        (let cleanQuery = sanitizeQuery (the (keyword params)) in
         if cleanQuery = []
           then (Inr (errorResponse (handleValidationError (dateNow w s) MSG_BAD_KEYWORD)), s)
         else
           (let r = withRetry
                      (w_search w cleanQuery (page params) (min (limit params) 60)
                         (f_order (filters params)))
                      3 1000 2 s
            in case outcome r of
                 Inr results \<Rightarrow>
                   (case transformSearchResponse otherFields results (page params)
                           (limit params) of
                      Inr maccmsData \<Rightarrow>
                        (Inr (createCachedResponse maccmsData CacheSearch), final r)
                    | Inl err \<Rightarrow>
                        (Inr (errorResponse (handleApiError (dateNow w (final r)) err)),
                         final r))
               | Inl (Some err) \<Rightarrow>
                   (Inr (errorResponse (handleApiError (dateNow w (final r)) err)), final r)
               | Inl None \<Rightarrow> (Inl (typeError w), final r))))"

definition handleVideoList ::
  "('s, 'v) world \<Rightarrow> ('v \<Rightarrow> thrown + 'f) \<Rightarrow> ProcessedParams \<Rightarrow> 's \<Rightarrow> (thrown + 'f response) \<times> 's" where
  "handleVideoList w otherFields params s =
     (let defaultQuery = js ''popular'';
          r = withRetry
                (w_search w defaultQuery (page params) (min (limit params) 60)
                   (f_order (filters params)))
                3 1000 2 s
      in case outcome r of
           Inr results \<Rightarrow>
             (case transformSearchResponse otherFields results (page params) (limit params) of
                Inr maccmsData \<Rightarrow> (Inr (createCachedResponse maccmsData CacheSearch), final r)
              | Inl err \<Rightarrow>
                  (Inr (errorResponse (handleApiError (dateNow w (final r)) err)), final r))
         | Inl (Some err) \<Rightarrow>
             (Inr (errorResponse (handleApiError (dateNow w (final r)) err)), final r)
         | Inl None \<Rightarrow> (Inl (typeError w), final r))"

text \<open>
  The numeric id of a detail record is \<^verbatim>\<open>parseInt(id, 36) || 1\<close>, a JavaScript number.
  \<^verbatim>\<open>parseInt\<close> returns the integer that the digits denote when that is at most \<^verbatim>\<open>2^53\<close> in
  magnitude, where every integer is a number. Beyond, the number is rounded, it is infinite
  for a long string, and in radix 36 the standard leaves the approximation to the engine:
  there the result is the world's \<open>w_parseIntLarge\<close>. \<^verbatim>\<open>x || 1\<close> is 1 for \<^verbatim>\<open>NaN\<close> and 0.
\<close>

definition orOne :: "jsnumber \<Rightarrow> jsnumber" where
  "orOne x = (if x = NaN \<or> x = Finite 0 then Finite 1 else x)"

definition vodIdOf :: "('s, 'v) world \<Rightarrow> jsstring \<Rightarrow> jsnumber" where
  "vodIdOf w ident =
     orOne (case parseInt ident 36 of
              None \<Rightarrow> NaN
            | Some n \<Rightarrow>
                if abs n \<le> 9007199254740992 then Finite n else w_parseIntLarge w ident 36)"

text \<open>
  \<^verbatim>\<open>handleVideoDetail\<close>. In the loop over the ids, the \<^verbatim>\<open>try\<close> block of an id holds the
  fetch and the transformation: the loop pushes the record of an id whose fetch returns
  and whose record is transformed, and skips an id whose fetch throws or whose
  transformation throws. The \<^verbatim>\<open>TypeError\<close> of a caught \<^verbatim>\<open>undefined\<close> would leave the loop to
  the handler's outer \<^verbatim>\<open>catch\<close>.
\<close>

fun detailLoop ::
  "('s, 'v) world \<Rightarrow> ('v \<Rightarrow> thrown + 'f) \<Rightarrow> jsstring list \<Rightarrow> 'f MacCMSVideo list \<Rightarrow> 's
     \<Rightarrow> (thrown + 'f MacCMSVideo list) \<times> 's" where
  "detailLoop w otherFields [] videoList s = (Inr videoList, s)"
| "detailLoop w otherFields (ident # rest) videoList s =
     (let r = withRetry (w_getVideoById w ident) 2 500 2 s
      in case outcome r of
           Inr detail \<Rightarrow>
             (case transformVideo otherFields detail (vodIdOf w ident) of
                Inr transformedVideo \<Rightarrow>
                  detailLoop w otherFields rest (videoList @ [transformedVideo]) (final r)
              | Inl err \<Rightarrow> detailLoop w otherFields rest videoList (final r))
         | Inl (Some err) \<Rightarrow> detailLoop w otherFields rest videoList (final r)
         | Inl None \<Rightarrow> (Inl (typeError w), final r))"

definition handleVideoDetail ::
  "('s, 'v) world \<Rightarrow> ('v \<Rightarrow> thrown + 'f) \<Rightarrow> ProcessedParams \<Rightarrow> 's \<Rightarrow> (thrown + 'f response) \<times> 's" where
  "handleVideoDetail w otherFields params s =
     (if videoIds params = None \<or> length (the (videoIds params)) = 0
        then (Inr (errorResponse (handleValidationError (dateNow w s) MSG_NEED_VIDEO_ID)), s)
      else
        (case detailLoop w otherFields (take 10 (the (videoIds params))) [] s of
           (Inl err, s') \<Rightarrow> (Inr (errorResponse (handleApiError (dateNow w s') err)), s')
         | (Inr videoList, s') \<Rightarrow>
             if length videoList = 0
               then (Inr (errorResponse (handleValidationError (dateNow w s') MSG_NO_VALID_DATA)),
                     s')
             else
               (Inr (createCachedResponse
                       \<lparr>code = 1, msg = MSG_DATA_LIST, r_page = 1, pagecount = Finite 1,
                        r_limit = int (length videoList), total = int (length videoList),
                        r_list = Some videoList, r_class = None, r_error = None\<rparr>
                       CacheDetail),
                s')))"

definition handleCategoryList :: "'s \<Rightarrow> (thrown + 'f response) \<times> 's" where
  "handleCategoryList s =
     (let categories = generateCategories
      in (Inr (createCachedResponse
                 \<lparr>code = 1, msg = MSG_DATA_LIST, r_page = 1, pagecount = Finite 1,
                  r_limit = int (length categories), total = int (length categories),
                  r_list = None, r_class = Some categories, r_error = None\<rparr>
                 CacheCategory),
          s))"

text \<open>
  \<^verbatim>\<open>GET\<close>: parse, validate, read the configuration's cache time, dispatch on the action;
  whatever is thrown on the way is rendered by the outer \<^verbatim>\<open>catch\<close>. The \<^verbatim>\<open>default\<close> branch
  of the source's \<^verbatim>\<open>switch\<close> has no action left to serve.
\<close>

definition GET ::
  "('s, 'v) world \<Rightarrow> ('v \<Rightarrow> thrown + 'f) \<Rightarrow> (jsstring \<times> jsstring) list \<Rightarrow> 's \<Rightarrow> 'f response \<times> 's" where
  "GET w otherFields searchParams s =
     (let params = processParams (w_engine w s) searchParams;
          validation = validateParams params
      in if \<not> valid validation
           then (errorResponse (handleValidationError (dateNow w s) (the (error validation))), s)
         else
           (case w_getCacheTime w s of
              (Inl err, s1) \<Rightarrow> (errorResponse (handleApiError (dateNow w s1) err), s1)
            | (Inr cacheTime, s1) \<Rightarrow>
                (case (case action params of
                         ActionSearch \<Rightarrow> handleVideoSearch w otherFields params s1
                       | ActionDetail \<Rightarrow> handleVideoDetail w otherFields params s1
                       | ActionList \<Rightarrow> handleVideoList w otherFields params s1
                       | ActionCategory \<Rightarrow> handleCategoryList s1) of
                   (Inr resp, s2) \<Rightarrow> (resp, s2)
                 | (Inl err, s2) \<Rightarrow> (errorResponse (handleApiError (dateNow w s2) err), s2))))"

text \<open>
  The per-id fetches of a detail request as the specification describes them: the ids are
  fetched one after the other, each on its own with a budget of two attempts, and the
  outcome of every id is recorded. \<open>succeeded\<close> keeps the ids whose fetch returned, with
  what it returned, in order; \<open>transformedOf\<close> keeps of these the ids whose record is
  transformed, with the legacy record, in order.
\<close>

fun fetchEach ::
  "('s, 'v) world \<Rightarrow> jsstring list \<Rightarrow> 's \<Rightarrow> (jsstring \<times> (thrown option + 'v)) list \<times> 's" where
  "fetchEach w [] s = ([], s)"
| "fetchEach w (ident # rest) s =
     (let r = withRetry (w_getVideoById w ident) 2 500 2 s;
          (os, s') = fetchEach w rest (final r)
      in ((ident, outcome r) # os, s'))"

fun succeeded :: "(jsstring \<times> (thrown option + 'v)) list \<Rightarrow> (jsstring \<times> 'v) list" where
  "succeeded [] = []"
| "succeeded ((ident, Inr detail) # os) = (ident, detail) # succeeded os"
| "succeeded ((ident, Inl err) # os) = succeeded os"

fun transformedOf ::
  "('s, 'v) world \<Rightarrow> ('v \<Rightarrow> thrown + 'f) \<Rightarrow> (jsstring \<times> 'v) list
     \<Rightarrow> (jsstring \<times> 'f MacCMSVideo) list" where
  "transformedOf w otherFields [] = []"
| "transformedOf w otherFields ((ident, detail) # ds) =
     (case transformVideo otherFields detail (vodIdOf w ident) of
        Inl err \<Rightarrow> transformedOf w otherFields ds
      | Inr video \<Rightarrow> (ident, video) # transformedOf w otherFields ds)"

text \<open>
  Values for concrete evaluations: three thrown errors (an HTTP 503, an HTTP 404 and a
  validation error), and a world whose state counts the network calls and whose
  \<^verbatim>\<open>parseInt\<close> is infinite beyond \<^verbatim>\<open>2^53\<close>, which no evaluation below reads. Its
  upstream record is reduced to the \<^verbatim>\<open>title\<close> key, a string or absent (\<open>None\<close>). Its
  provider fails with the 503 for the id \<^verbatim>\<open>bad\<close>, returns a record without title, as the
  JSON object \<^verbatim>\<open>{}\<close> is, for the id \<^verbatim>\<open>untitled\<close>, and a record titled with the id for
  every other id. \<open>sampleFields\<close> is the field \<^verbatim>\<open>vod_name\<close>: \<^verbatim>\<open>cleanTitle(video.title)\<close>
  calls \<^verbatim>\<open>title.replace\<close>, a \<^verbatim>\<open>TypeError\<close> when the title is absent. Last, a detail
  intent.
\<close>

definition serverError :: thrown where
  "serverError = \<lparr>t_name = Some (js ''Error''), t_code = None, t_status = Some 503, t_type = None,
     t_message = None\<rparr>"



definition sampleWorld :: "(nat, jsstring option) world" where
  "sampleWorld =
     \<lparr>w_engine = (\<lambda>n. epochEngine),
      w_typeErrorMessage = js ''undefined'',
      w_parseIntLarge = (\<lambda>ident radix. Infinity),
      w_search = (\<lambda>query pg perPage ord n.
         (Inr \<lparr>total_count = Some 25, current_page = Some pg, total_pages = None,
               videos = Some [Some (js ''v1''), Some (js ''v2'')]\<rparr>, Suc n)),
      w_getVideoById = (\<lambda>ident n.
         (if ident = js ''bad'' then Inl serverError
          else if ident = js ''untitled'' then Inr None
          else Inr (Some ident), Suc n)),
      w_getCacheTime = (\<lambda>n. (Inr 3600, n))\<rparr>"

definition sampleFields :: "jsstring option \<Rightarrow> thrown + jsstring" where
  "sampleFields video =
     (case video of
        None \<Rightarrow> Inl (typeError sampleWorld)
      | Some title \<Rightarrow> Inr (cleanTitle title))"

definition detailParams :: "jsstring list \<Rightarrow> ProcessedParams" where
  "detailParams ids =
     \<lparr>action = ActionDetail, keyword = None, page = 1, limit = 20, categoryId = None,
      videoIds = Some ids,
      filters = \<lparr>f_area = None, f_year = None, f_order = Latest, f_timeRange = None\<rparr>\<rparr>"

section \<open>The cache key\<close>

text \<open>
  \<^verbatim>\<open>MacCMSCacheManager.generateCacheKey(prefix, params)\<close> takes any object. The object is an
  association list in insertion order (its keys are distinct), and a value is one of the
  primitive values below; a number is an integer of magnitude below \<open>10^21\<close>, which
  \<^verbatim>\<open>String\<close> writes with all its decimal digits. \<open>String_of\<close> is the source's
  \<^verbatim>\<open>String(value)\<close>.
\<close>

datatype jsvalue = JUndefined | JNull | JBoolean bool | JInteger int | JString jsstring

function decimalDigits :: "nat \<Rightarrow> jsstring" where
  "decimalDigits n = (if n < 10 then [48 + n] else decimalDigits (n div 10) @ [48 + n mod 10])"
  by pat_completeness auto
termination
  by (relation "measure id") auto

declare decimalDigits.simps [simp del]

fun String_of :: "jsvalue \<Rightarrow> jsstring" where
  "String_of JUndefined = js ''undefined''"
| "String_of JNull = js ''null''"
| "String_of (JBoolean b) = (if b then js ''true'' else js ''false'')"
| "String_of (JInteger n) =
     (if n < 0 then 45 # decimalDigits (nat (- n)) else decimalDigits (nat n))"
| "String_of (JString s) = s"

text \<open>
  \<^verbatim>\<open>encodeURIComponent\<close>: a code unit of the unreserved set (ASCII letters and digits and
  \<^verbatim>\<open>- _ . ! ~ * ' ( )\<close>) is copied; any other code point is written as the bytes of its UTF-8
  form, each as \<^verbatim>\<open>%\<close> and two upper-case hexadecimal digits. A high surrogate followed by a
  low surrogate is one code point; any other surrogate is unpaired and raises a
  \<^verbatim>\<open>URIError\<close>.
\<close>

datatype uri_error = URIError

definition isUnreserved :: "nat \<Rightarrow> bool" where
  "isUnreserved c =
     (isAlnum c \<or> c = 45 \<or> c = 95 \<or> c = 46 \<or> c = 33 \<or> c = 126 \<or> c = 42 \<or> c = 39 \<or>
      c = 40 \<or> c = 41)"

definition isHighSurrogate :: "nat \<Rightarrow> bool" where
  "isHighSurrogate c = (55296 \<le> c \<and> c \<le> 56319)"

definition isLowSurrogate :: "nat \<Rightarrow> bool" where
  "isLowSurrogate c = (56320 \<le> c \<and> c \<le> 57343)"

definition codePointOfPair :: "nat \<Rightarrow> nat \<Rightarrow> nat" where
  "codePointOfPair hi lo = (hi - 55296) * 1024 + (lo - 56320) + 65536"

definition utf8Bytes :: "nat \<Rightarrow> nat list" where
  "utf8Bytes cp =
     (if cp < 128 then [cp]
      else if cp < 2048 then [192 + cp div 64, 128 + cp mod 64]
      else if cp < 65536 then [224 + cp div 4096, 128 + (cp div 64) mod 64, 128 + cp mod 64]
      else [240 + cp div 262144, 128 + (cp div 4096) mod 64, 128 + (cp div 64) mod 64,
            128 + cp mod 64])"

definition hexDigit :: "nat \<Rightarrow> nat" where
  "hexDigit n = (if n < 10 then 48 + n else 55 + n)"

definition percentByte :: "nat \<Rightarrow> jsstring" where
  "percentByte b = [37, hexDigit (b div 16), hexDigit (b mod 16)]"

definition percentEncode :: "nat \<Rightarrow> jsstring" where
  "percentEncode cp = concat (map percentByte (utf8Bytes cp))"

definition prependTo :: "jsstring \<Rightarrow> uri_error + jsstring \<Rightarrow> uri_error + jsstring" where
  "prependTo p r = (case r of Inl e \<Rightarrow> Inl e | Inr rest \<Rightarrow> Inr (p @ rest))"

fun encodeURIComponent :: "jsstring \<Rightarrow> uri_error + jsstring" where
  "encodeURIComponent [] = Inr []"
| "encodeURIComponent (c # cs) =
     (if isUnreserved c then prependTo [c] (encodeURIComponent cs)
      else if isHighSurrogate c then
        (case cs of
           [] \<Rightarrow> Inl URIError
         | d # ds \<Rightarrow>
             if isLowSurrogate d
             then prependTo (percentEncode (codePointOfPair c d)) (encodeURIComponent ds)
             else Inl URIError)
      else if isLowSurrogate c then Inl URIError
      else prependTo (percentEncode c) (encodeURIComponent cs))"

text \<open>
  \<^verbatim>\<open>Buffer.from(string)\<close> writes the string in UTF-8, an unpaired surrogate as the
  replacement character U+FFFD (bytes EF BF BD); \<^verbatim>\<open>toString('base64')\<close> writes the bytes in
  the standard alphabet, three bytes to four characters, padded with \<^verbatim>\<open>=\<close>.
\<close>

fun toUTF8 :: "jsstring \<Rightarrow> nat list" where
  "toUTF8 [] = []"
| "toUTF8 (c # cs) =
     (if isHighSurrogate c then
        (case cs of
           [] \<Rightarrow> [239, 191, 189]
         | d # ds \<Rightarrow>
             if isLowSurrogate d then utf8Bytes (codePointOfPair c d) @ toUTF8 ds
             else [239, 191, 189] @ toUTF8 cs)
      else if isLowSurrogate c then [239, 191, 189] @ toUTF8 cs
      else utf8Bytes c @ toUTF8 cs)"

definition base64Char :: "nat \<Rightarrow> nat" where
  "base64Char n =
     (if n < 26 then 65 + n
      else if n < 52 then 71 + n
      else if n < 62 then n - 4
      else if n = 62 then 43
      else 47)"

fun base64 :: "nat list \<Rightarrow> jsstring" where
  "base64 [] = []"
| "base64 [a] = [base64Char (a div 4), base64Char ((a mod 4) * 16), 61, 61]"
| "base64 [a, b] =
     [base64Char (a div 4), base64Char ((a mod 4) * 16 + b div 16),
      base64Char ((b mod 16) * 4), 61]"
| "base64 (a # b # c # rest) =
     [base64Char (a div 4), base64Char ((a mod 4) * 16 + b div 16),
      base64Char ((b mod 16) * 4 + c div 64), base64Char (c mod 64)] @ base64 rest"

fun joinWith :: "jsstring \<Rightarrow> jsstring list \<Rightarrow> jsstring" where
  "joinWith sep [] = []"
| "joinWith sep [x] = x"
| "joinWith sep (x # y # rest) = x @ sep @ joinWith sep (y # rest)"

text \<open>
  \<^verbatim>\<open>generateCacheKey\<close>. \<^verbatim>\<open>Object.keys(params).sort()\<close> sorts the keys by their code units
  (the engine lists index-like keys first, which the sort undoes); the \<^verbatim>\<open>map\<close> writes
  \<^verbatim>\<open>key=value\<close> for each key and stops at the first \<^verbatim>\<open>URIError\<close>.
\<close>

definition renderParam :: "(jsstring \<times> jsvalue) list \<Rightarrow> jsstring \<Rightarrow> uri_error + jsstring" where
  "renderParam params key =
     prependTo (key @ [61]) (encodeURIComponent (String_of (the (map_of params key))))"

fun collectAll :: "(uri_error + jsstring) list \<Rightarrow> uri_error + jsstring list" where
  "collectAll [] = Inr []"
| "collectAll (Inl e # rs) = Inl e"
| "collectAll (Inr x # rs) = (case collectAll rs of Inl e \<Rightarrow> Inl e | Inr xs \<Rightarrow> Inr (x # xs))"

definition generateCacheKey ::
  "jsstring \<Rightarrow> (jsstring \<times> jsvalue) list \<Rightarrow> uri_error + jsstring" where
  "generateCacheKey pfx params =
     (case collectAll (map (renderParam params) (sort (map fst params))) of
        Inl e \<Rightarrow> Inl e
      | Inr pieces \<Rightarrow>
          (let sortedParams = joinWith [38] pieces
           in Inr (js ''maccms:'' @ pfx @ [58] @ base64 (toUTF8 sortedParams))))"

text \<open>
  The type invariants of the cache key's inputs: a byte is below 256, a code unit of a
  string is below 65536, and the keys and string values of a parameter object are strings.
\<close>

definition isByte :: "nat \<Rightarrow> bool" where "isByte b = (b < 256)"

definition isString :: "jsstring \<Rightarrow> bool" where
  "isString s = list_all (\<lambda>c. c < 65536) s"

definition valueOK :: "jsvalue \<Rightarrow> bool" where
  "valueOK v = (case v of JString s \<Rightarrow> isString s | _ \<Rightarrow> True)"

definition wellFormedParams :: "(jsstring \<times> jsvalue) list \<Rightarrow> bool" where
  "wellFormedParams params = list_all (\<lambda>(k, v). isString k \<and> valueOK v) params"

text \<open>
  Two decoders, used only to show that the encodings above can be inverted: \<open>unescape\<close>
  reads \<^verbatim>\<open>%XX\<close> back to a byte and copies every other character, \<open>fromUTF8\<close> reads UTF-8
  bytes back to code units.
\<close>

definition unhex :: "nat \<Rightarrow> nat" where
  "unhex c = (if c < 58 then c - 48 else c - 55)"

fun unescape :: "jsstring \<Rightarrow> nat list" where
  "unescape [] = []"
| "unescape (c # cs) =
     (if c = 37 then
        (case cs of
           h # l # rest \<Rightarrow> (unhex h * 16 + unhex l) # unescape rest
         | _ \<Rightarrow> [])
      else c # unescape cs)"

fun fromUTF8 :: "nat list \<Rightarrow> jsstring" where
  "fromUTF8 [] = []"
| "fromUTF8 (b0 # bs) =
     (if b0 < 128 then b0 # fromUTF8 bs
      else if b0 < 224 then
        (case bs of
           b1 # rest \<Rightarrow> ((b0 - 192) * 64 + (b1 - 128)) # fromUTF8 rest
         | _ \<Rightarrow> [])
      else if b0 < 240 then
        (case bs of
           b1 # b2 # rest \<Rightarrow> ((b0 - 224) * 4096 + (b1 - 128) * 64 + (b2 - 128)) # fromUTF8 rest
         | _ \<Rightarrow> [])
      else
        (case bs of
           b1 # b2 # b3 # rest \<Rightarrow>
             (let cp = (b0 - 240) * 262144 + (b1 - 128) * 4096 + (b2 - 128) * 64 + (b3 - 128)
              in (55296 + (cp - 65536) div 1024) # (56320 + (cp - 65536) mod 1024) #
                 fromUTF8 rest)
         | _ \<Rightarrow> []))"

section \<open>Properties of the parameter processor\<close>

lemmas js_eval = js_def isWhiteSpace_def isRadixDigit_def digitValue_def digitsValue_def
  parseInt_def Let_def

lemma parseInt_Nil: "parseInt [] radix = None"
  by (simp add: parseInt_def)

lemma parseLimit_range: "1 \<le> parseLimit l \<and> parseLimit l \<le> 100"
  by (simp add: parseLimit_def DEFAULT_LIMIT_def MIN_LIMIT_def MAX_LIMIT_def split: option.splits)

lemma parsePage_range: "1 \<le> parsePage p"
  by (simp add: parsePage_def DEFAULT_PAGE_def split: option.splits)

text \<open>
  Claim C5. For every raw \<^verbatim>\<open>limit\<close> input \<open>l\<close> the processed limit lies between 1 and 100:
  an absent value and a string that \<^verbatim>\<open>parseInt\<close> reads as \<^verbatim>\<open>NaN\<close> give the default 20, a
  parsed integer below 1 gives 1, one above 100 gives 100, and one in between is kept. For
  every raw \<^verbatim>\<open>pg\<close> input \<open>p\<close> the processed page is at least 1: an absent value, a
  string read as \<^verbatim>\<open>NaN\<close> and a parsed integer of at most 0 give 1, and every other parsed
  integer is kept unchanged. (The empty string is read as \<^verbatim>\<open>NaN\<close>, so the source's test
  \<^verbatim>\<open>!limitStr\<close> adds no case.)
\<close>

theorem parseLimit_parsePage_clamp:
  "1 \<le> parseLimit l \<and> parseLimit l \<le> 100 \<and>
   parseLimit None = 20 \<and>
   (parseInt s 10 = None \<longrightarrow> parseLimit (Some s) = 20) \<and>
   (parseInt s 10 = Some n \<and> n < 1 \<longrightarrow> parseLimit (Some s) = 1) \<and>
   (parseInt s 10 = Some n \<and> n > 100 \<longrightarrow> parseLimit (Some s) = 100) \<and>
   (parseInt s 10 = Some n \<and> 1 \<le> n \<and> n \<le> 100 \<longrightarrow> parseLimit (Some s) = n) \<and>
   1 \<le> parsePage p \<and>
   parsePage None = 1 \<and>
   (parseInt s 10 = None \<longrightarrow> parsePage (Some s) = 1) \<and>
   (parseInt s 10 = Some n \<and> n \<le> 0 \<longrightarrow> parsePage (Some s) = 1) \<and>
   (parseInt s 10 = Some n \<and> 1 \<le> n \<longrightarrow> parsePage (Some s) = n)"
  using parseLimit_range[of l] parsePage_range[of p]
  by (auto simp: parseLimit_def parsePage_def DEFAULT_LIMIT_def DEFAULT_PAGE_def
      MIN_LIMIT_def MAX_LIMIT_def parseInt_Nil)

theorem parseLimit_parsePage_clamp_witness:
  "parseInt (js ''0'') 10 = Some 0 \<and>
     parseLimit (Some (js ''0'')) = 1 \<and> parsePage (Some (js ''0'')) = 1 \<and>
   parseInt (js ''200'') 10 = Some 200 \<and>
     parseLimit (Some (js ''200'')) = 100 \<and> parsePage (Some (js ''200'')) = 200 \<and>
   parseInt (js ''abc'') 10 = None \<and>
     parseLimit (Some (js ''abc'')) = 20 \<and> parsePage (Some (js ''abc'')) = 1 \<and>
   parseInt (js ''-3'') 10 = Some (- 3) \<and>
     parseLimit (Some (js ''-3'')) = 1 \<and> parsePage (Some (js ''-3'')) = 1 \<and>
   parseInt (js ''35'') 10 = Some 35 \<and> parseLimit (Some (js ''35'')) = 35"
proof -
  have a: "parseInt (js ''0'') 10 = Some 0" by (simp add: js_eval)
  have b: "parseInt (js ''200'') 10 = Some 200" by (simp add: js_eval)
  have c: "parseInt (js ''abc'') 10 = None" by (simp add: js_eval)
  have d: "parseInt (js ''-3'') 10 = Some (- 3)" by (simp add: js_eval)
  have e: "parseInt (js ''35'') 10 = Some 35" by (simp add: js_eval)
  show ?thesis
    using a b c d e
      parseLimit_parsePage_clamp[of undefined "js ''0''" 0]
      parseLimit_parsePage_clamp[of undefined "js ''200''" 200]
      parseLimit_parsePage_clamp[of undefined "js ''abc''"]
      parseLimit_parsePage_clamp[of undefined "js ''-3''" "- 3"]
      parseLimit_parsePage_clamp[of undefined "js ''35''" 35]
    by simp
qed

subsection \<open>Action resolution\<close>

text \<open>
  Claim C1 says that \<^verbatim>\<open>ac=list\<close> (or \<^verbatim>\<open>videolist\<close>) with no keyword, no id list and a
  category id other than \<^verbatim>\<open>"0"\<close> resolves to the list action. The source's second test in
  that branch is \<^verbatim>\<open>params.t === '0' || ac === 'list'\<close>: for \<^verbatim>\<open>ac=list\<close> and \<^verbatim>\<open>t=1\<close> the
  action is the category action, as the unit test \<^verbatim>\<open>ac=list&t=1&pg=2\<close> expects.
\<close>

theorem determineAction_list_counterexample:
  "map_option toLowerCase
     (q_ac (noParams\<lparr>q_ac := Some (js ''list''), q_t := Some (js ''1'')\<rparr>)) = Some (js ''list'') \<and>
   \<not> truthy (q_wd (noParams\<lparr>q_ac := Some (js ''list''), q_t := Some (js ''1'')\<rparr>)) \<and>
   \<not> truthy (q_ids (noParams\<lparr>q_ac := Some (js ''list''), q_t := Some (js ''1'')\<rparr>)) \<and>
   q_t (noParams\<lparr>q_ac := Some (js ''list''), q_t := Some (js ''1'')\<rparr>) \<noteq> Some (js ''0'') \<and>
   determineAction (noParams\<lparr>q_ac := Some (js ''list''), q_t := Some (js ''1'')\<rparr>) = ActionCategory \<and>
   determineAction (noParams\<lparr>q_ac := Some (js ''list''), q_t := Some (js ''1'')\<rparr>) \<noteq> ActionList"
  by (simp add: determineAction_def noParams_def js_def toLowerCase_def lowerUnit_def)

text \<open>
  Claim C1, amended. For every raw parameter set with no id-list signal and an absent or
  blank keyword: when the lower-cased \<^verbatim>\<open>ac\<close> is \<^verbatim>\<open>videolist\<close> and \<^verbatim>\<open>t\<close> is not the string
  \<^verbatim>\<open>"0"\<close> the action is list; when \<^verbatim>\<open>ac\<close> is \<^verbatim>\<open>videolist\<close> and \<^verbatim>\<open>t\<close> is \<^verbatim>\<open>"0"\<close>, or \<^verbatim>\<open>ac\<close> is
  \<^verbatim>\<open>list\<close> with any \<^verbatim>\<open>t\<close>, the action is category. The category action is chosen in exactly
  these cases.
\<close>

theorem determineAction_list_category:
  "(\<not> truthy (q_ids params) \<and> \<not> (truthy (q_wd params) \<and> trim (the (q_wd params)) \<noteq> []) \<longrightarrow>
     (map_option toLowerCase (q_ac params) = Some (js ''videolist'') \<and> q_t params \<noteq> Some (js ''0'')
        \<longrightarrow> determineAction params = ActionList) \<and>
     (map_option toLowerCase (q_ac params) = Some (js ''videolist'') \<and> q_t params = Some (js ''0'')
        \<longrightarrow> determineAction params = ActionCategory) \<and>
     (map_option toLowerCase (q_ac params) = Some (js ''list'')
        \<longrightarrow> determineAction params = ActionCategory)) \<and>
   ((determineAction params = ActionCategory) =
     (\<not> truthy (q_ids params) \<and> \<not> (truthy (q_wd params) \<and> trim (the (q_wd params)) \<noteq> []) \<and>
      (map_option toLowerCase (q_ac params) = Some (js ''list'') \<or>
       (map_option toLowerCase (q_ac params) = Some (js ''videolist'') \<and>
        q_t params = Some (js ''0'')))))"
  by (auto simp: determineAction_def Let_def js_def)

theorem determineAction_list_category_witness:
  "determineAction (noParams\<lparr>q_ac := Some (js ''VideoList''), q_t := Some (js ''2'')\<rparr>) = ActionList \<and>
   determineAction (noParams\<lparr>q_ac := Some (js ''videolist''), q_t := Some (js ''0'')\<rparr>)
     = ActionCategory \<and>
   determineAction (noParams\<lparr>q_ac := Some (js ''list''), q_wd := Some (js ''  '')\<rparr>) = ActionCategory"
  using
    determineAction_list_category
      [of "noParams\<lparr>q_ac := Some (js ''VideoList''), q_t := Some (js ''2'')\<rparr>"]
    determineAction_list_category
      [of "noParams\<lparr>q_ac := Some (js ''videolist''), q_t := Some (js ''0'')\<rparr>"]
    determineAction_list_category
      [of "noParams\<lparr>q_ac := Some (js ''list''), q_wd := Some (js ''  '')\<rparr>"]
  by (simp add: noParams_def js_def toLowerCase_def lowerUnit_def trim_def isWhiteSpace_def)

subsection \<open>The keyword\<close>

lemma isWhiteSpace_space: "isWhiteSpace 32"
  by (simp add: isWhiteSpace_def)

lemma filter_not_dropWhile:
  "filter (\<lambda>c. \<not> P c) (dropWhile P xs) = filter (\<lambda>c. \<not> P c) xs"
  by (induction xs) auto

lemma dropWhile_head: "dropWhile P xs = y # ys \<Longrightarrow> \<not> P y"
  by (metis hd_dropWhile list.sel(1) list.distinct(1))

lemma collapseWhitespace_head:
  "collapseWhitespace s = y # ys \<Longrightarrow> isWhiteSpace y \<Longrightarrow> s \<noteq> [] \<and> isWhiteSpace (hd s)"
  by (cases s) (auto split: if_splits)

text \<open>After the collapse no two neighbours are both white space.\<close>

lemma collapseWhitespace_single:
  "successively (\<lambda>a b. \<not> (isWhiteSpace a \<and> isWhiteSpace b)) (collapseWhitespace s)"
proof (induction s rule: collapseWhitespace.induct)
  case 1
  then show ?case by simp
next
  case (2 c cs)
  show ?case
  proof (cases "isWhiteSpace c")
    case True
    have "\<not> isWhiteSpace (hd (collapseWhitespace (dropWhile isWhiteSpace cs)))"
      if ne: "collapseWhitespace (dropWhile isWhiteSpace cs) \<noteq> []"
    proof
      assume w: "isWhiteSpace (hd (collapseWhitespace (dropWhile isWhiteSpace cs)))"
      obtain y ys where e: "collapseWhitespace (dropWhile isWhiteSpace cs) = y # ys"
        using ne by (cases "collapseWhitespace (dropWhile isWhiteSpace cs)") auto
      with w have "isWhiteSpace y" by simp
      from collapseWhitespace_head[OF e this]
      have n: "dropWhile isWhiteSpace cs \<noteq> []"
        and h: "isWhiteSpace (hd (dropWhile isWhiteSpace cs))" by simp_all
      from n obtain z zs where d: "dropWhile isWhiteSpace cs = z # zs"
        by (cases "dropWhile isWhiteSpace cs") auto
      with h dropWhile_head[OF d] show False by simp
    qed
    with True 2 show ?thesis by (auto simp: successively_Cons)
  next
    case False
    with 2 show ?thesis by (auto simp: successively_Cons)
  qed
qed

lemma collapseWhitespace_units:
  "c \<in> set (collapseWhitespace s) \<Longrightarrow> c = 32 \<or> (c \<in> set s \<and> \<not> isWhiteSpace c)"
  by (induction s rule: collapseWhitespace.induct)
     (auto split: if_splits dest: set_dropWhileD)

text \<open>The collapse keeps every code unit that is not white space, in order.\<close>

lemma collapseWhitespace_keeps:
  "filter (\<lambda>c. \<not> isWhiteSpace c) (collapseWhitespace s) = filter (\<lambda>c. \<not> isWhiteSpace c) s"
  by (induction s rule: collapseWhitespace.induct)
     (auto simp: isWhiteSpace_space filter_not_dropWhile)

lemma successively_take: "successively P xs \<Longrightarrow> successively P (take n xs)"
  by (metis append_take_drop_id successively_append_iff)

text \<open>
  Claim C4 says that the keyword parser returns \<^verbatim>\<open>undefined\<close> whenever the cleaned result is
  empty, also for an input that is not blank before cleaning. The source tests blankness
  on the raw input only: \<^verbatim>\<open><>\<close> is not blank, its cleaned form is the empty string, and
  the empty string is what \<^verbatim>\<open>parseKeyword\<close> returns.
\<close>

theorem parseKeyword_stripped_counterexample:
  "trim (js ''<>'') \<noteq> [] \<and>
   collapseWhitespace (stripHtmlSpecial (trim (js ''<>''))) = [] \<and>
   parseKeyword (Some (js ''<>'')) = Some [] \<and>
   parseKeyword (Some (js ''<>'')) \<noteq> None"
  by (simp add: parseKeyword_def js_def trim_def isWhiteSpace_def stripHtmlSpecial_def
      isHtmlSpecial_def)

text \<open>
  Claim C4, amended. The keyword parser returns \<^verbatim>\<open>undefined\<close> exactly when the raw input is
  absent, empty or blank. Otherwise it returns the input trimmed, with the five code units
  of \<^verbatim>\<open>< > " ' &\<close> deleted, every run of white space replaced by one space and the result
  cut to 100 code units: a string of at most 100 code units with none of the five, whose
  only white space is the space and in which no two white-space units are neighbours. That
  string can be empty (the counterexample above).
\<close>

theorem parseKeyword_cleaned:
  "((parseKeyword wd = None) = (\<not> truthy wd \<or> trim (the wd) = [])) \<and>
   (parseKeyword wd = Some k \<longrightarrow>
      k = take 100 (collapseWhitespace (stripHtmlSpecial (trim (the wd)))) \<and>
      length k \<le> 100 \<and>
      (\<forall>c\<in>set k. \<not> isHtmlSpecial c \<and> (isWhiteSpace c \<longrightarrow> c = 32)) \<and>
      successively (\<lambda>a b. \<not> (isWhiteSpace a \<and> isWhiteSpace b)) k)"
proof (intro conjI impI)
  show "(parseKeyword wd = None) = (\<not> truthy wd \<or> trim (the wd) = [])"
    by (simp add: parseKeyword_def)
next
  assume a: "parseKeyword wd = Some k"
  then show k: "k = take 100 (collapseWhitespace (stripHtmlSpecial (trim (the wd))))"
    by (auto simp: parseKeyword_def split: if_splits)
  show "length k \<le> 100" using k by simp
  show "\<forall>c\<in>set k. \<not> isHtmlSpecial c \<and> (isWhiteSpace c \<longrightarrow> c = 32)"
  proof
    fix c assume "c \<in> set k"
    then have "c \<in> set (collapseWhitespace (stripHtmlSpecial (trim (the wd))))"
      using k by (auto dest: in_set_takeD)
    from collapseWhitespace_units[OF this]
    show "\<not> isHtmlSpecial c \<and> (isWhiteSpace c \<longrightarrow> c = 32)"
      by (auto simp: stripHtmlSpecial_def isHtmlSpecial_def)
  qed
  show "successively (\<lambda>a b. \<not> (isWhiteSpace a \<and> isWhiteSpace b)) k"
    unfolding k by (rule successively_take[OF collapseWhitespace_single])
qed

theorem parseKeyword_cleaned_witness:
  "parseKeyword (Some (js ''  a <b>   c  '')) = Some (js ''a b c'') \<and>
   length (js ''a b c'') \<le> 100 \<and>
   parseKeyword (Some (js ''   '')) = None \<and>
   parseKeyword None = None"
proof -
  have t: "trim (js ''  a <b>   c  '') = js ''a <b>   c''"
    by (simp add: js_def trim_def isWhiteSpace_def)
  have c: "collapseWhitespace (stripHtmlSpecial (js ''a <b>   c'')) = js ''a b c''"
    by (simp add: js_def stripHtmlSpecial_def isHtmlSpecial_def isWhiteSpace_def)
  have n: "js ''  a <b>   c  '' \<noteq> []" "js ''a <b>   c'' \<noteq> []" "length (js ''a b c'') = 5"
    by (simp_all add: js_def)
  have e: "parseKeyword (Some (js ''  a <b>   c  '')) = Some (js ''a b c'')"
    using t c n by (simp add: parseKeyword_def)
  have b: "trim (js ''   '') = []"
    by (simp add: js_def trim_def isWhiteSpace_def)
  show ?thesis
    using e b n parseKeyword_cleaned[of "Some (js ''  a <b>   c  '')" "js ''a b c''"]
      parseKeyword_cleaned[of "Some (js ''   '')"] parseKeyword_cleaned[of None]
    by simp
qed

subsection \<open>The parser's intents pass the page and limit checks\<close>

text \<open>
  Claim C9. For every raw parameter set (and every engine), the intent produced by
  \<^verbatim>\<open>parseParams\<close> has a page of at least 1 and a limit between 1 and 100, so
  \<^verbatim>\<open>validateParams\<close> on it either succeeds or fails with the search-keyword message or the
  video-ID message, and never with the page or the limit message.
\<close>

theorem validateParams_parseParams:
  "1 \<le> page (parseParams eng params) \<and>
   1 \<le> limit (parseParams eng params) \<and> limit (parseParams eng params) \<le> 100 \<and>
   (validateParams (parseParams eng params) = \<lparr>valid = True, error = None\<rparr> \<or>
    validateParams (parseParams eng params) = \<lparr>valid = False, error = Some MSG_KEYWORD_EMPTY\<rparr> \<or>
    validateParams (parseParams eng params) = \<lparr>valid = False, error = Some MSG_VIDEO_ID_EMPTY\<rparr>) \<and>
   error (validateParams (parseParams eng params)) \<noteq> Some MSG_PAGE \<and>
   error (validateParams (parseParams eng params)) \<noteq> Some MSG_LIMIT"
proof -
  have p: "1 \<le> page (parseParams eng params)"
    by (simp add: parseParams_def parsePage_range)
  have l: "1 \<le> limit (parseParams eng params) \<and> limit (parseParams eng params) \<le> 100"
    using parseLimit_range[of "q_limit params"] by (simp add: parseParams_def)
  have m: "MSG_KEYWORD_EMPTY \<noteq> MSG_PAGE" "MSG_KEYWORD_EMPTY \<noteq> MSG_LIMIT"
    "MSG_VIDEO_ID_EMPTY \<noteq> MSG_PAGE" "MSG_VIDEO_ID_EMPTY \<noteq> MSG_LIMIT"
    by (simp_all add: MSG_KEYWORD_EMPTY_def MSG_VIDEO_ID_EMPTY_def MSG_PAGE_def MSG_LIMIT_def)
  show ?thesis
    using p l m by (simp add: validateParams_def MIN_LIMIT_def MAX_LIMIT_def)
qed

theorem validateParams_parseParams_witness:
  "page (parseParams epochEngine
      (noParams\<lparr>q_pg := Some (js ''-4''), q_limit := Some (js ''1000'')\<rparr>)) = 1 \<and>
   limit (parseParams epochEngine
      (noParams\<lparr>q_pg := Some (js ''-4''), q_limit := Some (js ''1000'')\<rparr>)) = 100 \<and>
   validateParams (parseParams epochEngine
      (noParams\<lparr>q_pg := Some (js ''-4''), q_limit := Some (js ''1000'')\<rparr>))
     = \<lparr>valid = True, error = None\<rparr> \<and>
   validateParams (parseParams epochEngine (noParams\<lparr>q_wd := Some (js ''<>'')\<rparr>))
     = \<lparr>valid = False, error = Some MSG_KEYWORD_EMPTY\<rparr> \<and>
   validateParams (parseParams epochEngine (noParams\<lparr>q_ac := Some (js ''detail'')\<rparr>))
     = \<lparr>valid = False, error = Some MSG_VIDEO_ID_EMPTY\<rparr>"
proof -
  have a: "parsePage (Some (js ''-4'')) = 1"
    by (simp add: parsePage_def DEFAULT_PAGE_def js_eval)
  have b: "parseLimit (Some (js ''1000'')) = 100"
    by (simp add: parseLimit_def MIN_LIMIT_def MAX_LIMIT_def js_eval)
  have c: "parseKeyword (Some (js ''<>'')) = Some []"
    by (simp add: parseKeyword_def js_def trim_def isWhiteSpace_def stripHtmlSpecial_def
        isHtmlSpecial_def)
  have d: "trim (js ''<>'') \<noteq> []"
    by (simp add: js_def trim_def isWhiteSpace_def)
  show ?thesis
    using a b c d
      validateParams_parseParams
        [of epochEngine "noParams\<lparr>q_pg := Some (js ''-4''), q_limit := Some (js ''1000'')\<rparr>"]
    by (simp add: parseParams_def validateParams_def determineAction_def noParams_def
        parseVideoIds_def parseKeyword_def parsePage_def parseLimit_def DEFAULT_PAGE_def
        DEFAULT_LIMIT_def MIN_LIMIT_def MAX_LIMIT_def js_def toLowerCase_def lowerUnit_def)
qed

subsection \<open>The video id list\<close>






















section \<open>Properties of the retry handler\<close>





section \<open>Properties of the transformer\<close>












section \<open>Properties of the request dispatcher\<close>

text \<open>With at least one attempt allowed, what \<^verbatim>\<open>withRetry\<close> throws is never \<^verbatim>\<open>undefined\<close>.\<close>

lemma withRetry_loop_defined:
  "attempt \<le> maxRetries \<or> lastError \<noteq> None \<Longrightarrow>
   outcome (withRetry_loop fn maxRetries delay backoff attempt lastError s n ws) \<noteq> Inl None"
proof (induction fn maxRetries delay backoff attempt lastError s n ws rule: withRetry_loop.induct)
  case (1 fn maxRetries delay backoff attempt lastError s n ws)
  show ?case
  proof (cases "attempt \<le> maxRetries")
    case False
    with 1(2) show ?thesis by (simp add: withRetry_loop.simps[of fn maxRetries delay backoff attempt])
  next
    case True
    obtain r s' where f: "fn s = (r, s')" by (cases "fn s")
    show ?thesis
    proof (cases r)
      case (Inr v)
      with True f show ?thesis
        by (simp add: withRetry_loop.simps[of fn maxRetries delay backoff attempt])
    next
      case (Inl err)
      show ?thesis
      proof (cases "attempt = maxRetries \<or> shouldNotRetry err")
        case True
        with \<open>attempt \<le> maxRetries\<close> f Inl show ?thesis
          by (auto simp: withRetry_loop.simps[of fn maxRetries delay backoff attempt])
      next
        case False
        then have "outcome (withRetry_loop fn maxRetries delay backoff (attempt + 1) (Some err) s'
            (Suc n) (ws @ [delay * backoff ^ nat (attempt - 1)])) \<noteq> Inl None"
          using 1(1)[OF True f[symmetric] Inl] by simp
        with False True f Inl show ?thesis
          by (simp add: withRetry_loop.simps[of fn maxRetries delay backoff attempt])
      qed
    qed
  qed
qed

lemma withRetry_defined: "1 \<le> maxRetries \<Longrightarrow> outcome (withRetry fn maxRetries delay backoff s) \<noteq> Inl None"
  by (simp add: withRetry_def withRetry_loop_defined)

text \<open>
  The loop of \<^verbatim>\<open>handleVideoDetail\<close> pushes the records of the ids that were fetched and
  transformed.
\<close>

lemma detailLoop_fetchEach:
  "detailLoop w otherFields ids acc s =
     (Inr (acc @ map snd (transformedOf w otherFields (succeeded (fst (fetchEach w ids s))))),
      snd (fetchEach w ids s))"
proof (induction ids arbitrary: acc s)
  case Nil
  then show ?case by simp
next
  case (Cons ident rest)
  let ?r = "withRetry (w_getVideoById w ident) 2 500 2 s"
  have d: "outcome ?r \<noteq> Inl None" by (rule withRetry_defined) simp
  show ?case
  proof (cases "outcome ?r")
    case (Inr detail)
    then show ?thesis
      by (cases "transformVideo otherFields detail (vodIdOf w ident)")
         (simp_all add: Cons.IH Let_def split: prod.splits)
  next
    case (Inl e)
    with d obtain err where "e = Some err" by (cases e) auto
    with Inl show ?thesis by (simp add: Cons.IH Let_def split: prod.splits)
  qed
qed

lemma map_fst_fetchEach: "map fst (fst (fetchEach w ids s)) = ids"
  by (induction ids arbitrary: s) (simp_all add: Let_def split_beta)

lemma subseq_succeeded: "subseq (map fst (succeeded os)) (map fst os)"
  by (induction os rule: succeeded.induct) auto

lemma subseq_transformedOf: "subseq (map fst (transformedOf w otherFields ds)) (map fst ds)"
  by (induction ds rule: transformedOf.induct) (auto split: sum.splits)

lemma set_succeeded: "set (succeeded os) = {(ident, detail). (ident, Inr detail) \<in> set os}"
  by (induction os rule: succeeded.induct) auto

lemma transformedOf_succeeded_empty:
  "(transformedOf w otherFields (succeeded os) = []) =
     (\<forall>x\<in>set os. case snd x of Inl err \<Rightarrow> True | Inr detail \<Rightarrow> isl (otherFields detail))"
  by (induction os rule: succeeded.induct) (auto simp: transformVideo_def split: sum.splits)

lemma transformedOf_records:
  "(ident, video) \<in> set (transformedOf w otherFields ds) \<Longrightarrow>
   \<exists>detail fs. (ident, detail) \<in> set ds \<and> otherFields detail = Inr fs \<and>
      video = \<lparr>vod_id = vodIdOf w ident, vod_fields = fs\<rparr>"
  by (induction ds rule: transformedOf.induct)
     (auto simp: transformVideo_def split: sum.splits)

text \<open>
  Claim C3 says that the list of a detail response holds the records of the ids whose fetch
  did not fail, and that the error envelope is returned only when the fetch of every id
  fails. The \<^verbatim>\<open>try\<close> block of an id also holds \<^verbatim>\<open>transformVideo\<close>: an id whose fetch returns a
  record that the transformer throws on is skipped as well. The provider answers the id
  \<^verbatim>\<open>untitled\<close> at the first attempt with a record without title; the fetch did not fail, and
  the response is the "no valid video data found" error envelope.
\<close>

theorem handleVideoDetail_untitled_counterexample:
  "fetchEach sampleWorld (take 10 [js ''untitled'']) 0 = ([(js ''untitled'', Inr None)], 1) \<and>
   succeeded [(js ''untitled'', Inr (None :: jsstring option))] = [(js ''untitled'', None)] \<and>
   handleVideoDetail sampleWorld sampleFields (detailParams [js ''untitled'']) 0
     = (Inr (createCachedResponse
               (createErrorResponse
                  \<lparr>ed_type = VALIDATION, ed_message = MSG_NO_VALID_DATA, ed_details = None,
                   ed_timestamp = 0\<rparr>)
               CacheError), 1)"
proof -
  have ne: "js ''untitled'' \<noteq> js ''bad''" by (simp add: js_def)
  have r: "withRetry (w_getVideoById sampleWorld (js ''untitled'')) 2 500 2 0
      = \<lparr>outcome = Inr None, final = 1, calls = 1, sleeps = []\<rparr>"
    using ne by (simp add: withRetry_def withRetry_loop.simps[of _ 2] sampleWorld_def)
  have t: "transformVideo sampleFields None vodId = Inl (typeError sampleWorld)" for vodId
    by (simp add: transformVideo_def sampleFields_def)
  have d: "dateNow sampleWorld n = 0" for n
    by (simp add: dateNow_def sampleWorld_def epochEngine_def)
  have f: "fetchEach sampleWorld (take 10 [js ''untitled'']) 0 = ([(js ''untitled'', Inr None)], 1)"
    by (simp add: r)
  have h: "handleVideoDetail sampleWorld sampleFields (detailParams [js ''untitled'']) 0
     = (Inr (createCachedResponse
               (createErrorResponse
                  \<lparr>ed_type = VALIDATION, ed_message = MSG_NO_VALID_DATA, ed_details = None,
                   ed_timestamp = 0\<rparr>)
               CacheError), 1)"
    by (simp add: handleVideoDetail_def detailParams_def r t d errorResponse_def
        handleValidationError_def createError_def)
  show ?thesis using f h by simp
qed

text \<open>
  Claim C3, amended. For every detail request with a non-empty id list \<open>ids\<close>: the (first
  ten) ids are fetched one after the other, each with its own retry budget (\<open>fetchEach\<close>);
  an id whose fetch failed is skipped, and so is an id whose record the transformer throws
  on. When at least one id is left the response is a success envelope (code 1, cache type
  detail) whose list holds the transformed records of the ids left, in input order, with
  total and limit equal to their number; exactly when no id is left, every id's fetch
  having failed or its transformation having thrown, the response is the error envelope of
  the validation type with the "no valid video data found" message.
\<close>

theorem handleVideoDetail_partial_failure:
  "videoIds params = Some ids \<and> ids \<noteq> [] \<and>
   fetchEach w (take 10 ids) s = (os, s') \<and>
   kept = transformedOf w otherFields (succeeded os) \<and>
   recs = map snd kept
   \<longrightarrow>
     map fst os = take 10 ids \<and>
     subseq (map fst kept) (take 10 ids) \<and>
     (\<forall>x\<in>set kept. \<exists>detail fs. (fst x, Inr detail) \<in> set os \<and> otherFields detail = Inr fs \<and>
        snd x = \<lparr>vod_id = vodIdOf w (fst x), vod_fields = fs\<rparr>) \<and>
     ((recs = []) =
        (\<forall>x\<in>set os. case snd x of Inl err \<Rightarrow> True | Inr detail \<Rightarrow> isl (otherFields detail))) \<and>
     handleVideoDetail w otherFields params s =
       (if recs = []
        then (Inr (createCachedResponse
                     (createErrorResponse
                        \<lparr>ed_type = VALIDATION, ed_message = MSG_NO_VALID_DATA, ed_details = None,
                         ed_timestamp = dateNow w s'\<rparr>)
                     CacheError), s')
        else (Inr (createCachedResponse
                     \<lparr>code = 1, msg = MSG_DATA_LIST, r_page = 1, pagecount = Finite 1,
                      r_limit = int (length recs), total = int (length recs),
                      r_list = Some recs, r_class = None, r_error = None\<rparr>
                     CacheDetail), s'))"
proof (intro impI)
  assume a: "videoIds params = Some ids \<and> ids \<noteq> [] \<and>
   fetchEach w (take 10 ids) s = (os, s') \<and>
   kept = transformedOf w otherFields (succeeded os) \<and>
   recs = map snd kept"
  have m: "map fst os = take 10 ids"
    using a map_fst_fetchEach[of w "take 10 ids" s] by simp
  have sub: "subseq (map fst kept) (take 10 ids)"
    using a m subseq_transformedOf[of w otherFields "succeeded os"] subseq_succeeded[of os]
    by (metis subseq_order.order_trans)
  have k: "\<forall>x\<in>set kept. \<exists>detail fs. (fst x, Inr detail) \<in> set os \<and>
        otherFields detail = Inr fs \<and> snd x = \<lparr>vod_id = vodIdOf w (fst x), vod_fields = fs\<rparr>"
  proof
    fix x assume "x \<in> set kept"
    then have "(fst x, snd x) \<in> set (transformedOf w otherFields (succeeded os))"
      using a by simp
    from transformedOf_records[OF this]
    show "\<exists>detail fs. (fst x, Inr detail) \<in> set os \<and>
        otherFields detail = Inr fs \<and> snd x = \<lparr>vod_id = vodIdOf w (fst x), vod_fields = fs\<rparr>"
      by (auto simp: set_succeeded)
  qed
  have e: "(recs = []) =
        (\<forall>x\<in>set os. case snd x of Inl err \<Rightarrow> True | Inr detail \<Rightarrow> isl (otherFields detail))"
    using a by (simp add: transformedOf_succeeded_empty)
  have h: "handleVideoDetail w otherFields params s =
       (if recs = []
        then (Inr (createCachedResponse
                     (createErrorResponse
                        \<lparr>ed_type = VALIDATION, ed_message = MSG_NO_VALID_DATA, ed_details = None,
                         ed_timestamp = dateNow w s'\<rparr>)
                     CacheError), s')
        else (Inr (createCachedResponse
                     \<lparr>code = 1, msg = MSG_DATA_LIST, r_page = 1, pagecount = Finite 1,
                      r_limit = int (length recs), total = int (length recs),
                      r_list = Some recs, r_class = None, r_error = None\<rparr>
                     CacheDetail), s'))"
    using a by (simp add: handleVideoDetail_def detailLoop_fetchEach errorResponse_def
        handleValidationError_def createError_def)
  show "map fst os = take 10 ids \<and>
     subseq (map fst kept) (take 10 ids) \<and>
     (\<forall>x\<in>set kept. \<exists>detail fs. (fst x, Inr detail) \<in> set os \<and> otherFields detail = Inr fs \<and>
        snd x = \<lparr>vod_id = vodIdOf w (fst x), vod_fields = fs\<rparr>) \<and>
     ((recs = []) =
        (\<forall>x\<in>set os. case snd x of Inl err \<Rightarrow> True | Inr detail \<Rightarrow> isl (otherFields detail))) \<and>
     handleVideoDetail w otherFields params s = (if recs = []
        then (Inr (createCachedResponse
                     (createErrorResponse
                        \<lparr>ed_type = VALIDATION, ed_message = MSG_NO_VALID_DATA, ed_details = None,
                         ed_timestamp = dateNow w s'\<rparr>)
                     CacheError), s')
        else (Inr (createCachedResponse
                     \<lparr>code = 1, msg = MSG_DATA_LIST, r_page = 1, pagecount = Finite 1,
                      r_limit = int (length recs), total = int (length recs),
                      r_list = Some recs, r_class = None, r_error = None\<rparr>
                     CacheDetail), s'))"
    using m sub k e h by blast
qed

lemma cleanTitle_samples:
  "cleanTitle (js ''a'') = js ''a''" "cleanTitle (js ''b'') = js ''b''"
  "cleanTitle (js ''v1'') = js ''v1''" "cleanTitle (js ''v2'') = js ''v2''"
  by (simp_all add: cleanTitle_def stripHtmlSpecial_def isHtmlSpecial_def trim_def
      isWhiteSpace_def js_def)

lemma retry_ok:
  "ident \<noteq> js ''bad'' \<Longrightarrow> ident \<noteq> js ''untitled'' \<Longrightarrow>
   withRetry (w_getVideoById sampleWorld ident) 2 500 2 n
     = \<lparr>outcome = Inr (Some ident), final = Suc n, calls = 1, sleeps = []\<rparr>"
  by (simp add: withRetry_def withRetry_loop.simps[of _ 2] sampleWorld_def)

lemma retry_untitled:
  "withRetry (w_getVideoById sampleWorld (js ''untitled'')) 2 500 2 n
     = \<lparr>outcome = Inr None, final = Suc n, calls = 1, sleeps = []\<rparr>"
proof -
  have "js ''untitled'' \<noteq> js ''bad''" by (simp add: js_def)
  then show ?thesis
    by (simp add: withRetry_def withRetry_loop.simps[of _ 2] sampleWorld_def)
qed

lemma retry_bad:
  "withRetry (w_getVideoById sampleWorld (js ''bad'')) 2 500 2 n
     = \<lparr>outcome = Inl (Some serverError), final = Suc (Suc n), calls = 2, sleeps = [500]\<rparr>"
proof -
  have r: "\<not> shouldNotRetry serverError"
    by (simp add: shouldNotRetry_def serverError_def js_def)
  show ?thesis
    using r by (simp add: withRetry_def withRetry_loop.simps[of _ 2] sampleWorld_def)
qed

theorem handleVideoDetail_partial_failure_witness:
  "handleVideoDetail sampleWorld sampleFields
      (detailParams [js ''a'', js ''bad'', js ''untitled'', js ''b'']) 0
     = (Inr (createCachedResponse
               \<lparr>code = 1, msg = MSG_DATA_LIST, r_page = 1, pagecount = Finite 1,
                r_limit = 2, total = 2,
                r_list = Some [\<lparr>vod_id = Finite 10, vod_fields = js ''a''\<rparr>,
                               \<lparr>vod_id = Finite 11, vod_fields = js ''b''\<rparr>],
                r_class = None, r_error = None\<rparr>
               CacheDetail), 5) \<and>
   handleVideoDetail sampleWorld sampleFields (detailParams [js ''bad'', js ''untitled'']) 0
     = (Inr (createCachedResponse
               (createErrorResponse
                  \<lparr>ed_type = VALIDATION, ed_message = MSG_NO_VALID_DATA, ed_details = None,
                   ed_timestamp = 0\<rparr>)
               CacheError), 3)"
proof -
  have ne: "js ''a'' \<noteq> js ''bad''" "js ''b'' \<noteq> js ''bad''"
      "js ''a'' \<noteq> js ''untitled''" "js ''b'' \<noteq> js ''untitled''"
    by (simp_all add: js_def)
  let ?os1 = "[(js ''a'', Inr (Some (js ''a''))), (js ''bad'', Inl (Some serverError)),
      (js ''untitled'', Inr None), (js ''b'', Inr (Some (js ''b'')))]"
  let ?os2 = "[(js ''bad'', Inl (Some serverError)), (js ''untitled'', Inr None)]"
  have f1: "fetchEach sampleWorld (take 10 [js ''a'', js ''bad'', js ''untitled'', js ''b'']) 0
      = (?os1, 5)"
    using ne by (simp add: retry_ok retry_bad retry_untitled)
  have f2: "fetchEach sampleWorld (take 10 [js ''bad'', js ''untitled'']) 0 = (?os2, 3)"
    by (simp add: retry_bad retry_untitled)
  have v: "vodIdOf sampleWorld (js ''a'') = Finite 10" "vodIdOf sampleWorld (js ''b'') = Finite 11"
    by (simp_all add: vodIdOf_def orOne_def js_eval)
  have t: "transformVideo sampleFields None vodId = Inl (typeError sampleWorld)"
      "transformVideo sampleFields (Some (js ''a'')) vodId
         = Inr \<lparr>vod_id = vodId, vod_fields = js ''a''\<rparr>"
      "transformVideo sampleFields (Some (js ''b'')) vodId
         = Inr \<lparr>vod_id = vodId, vod_fields = js ''b''\<rparr>" for vodId
    by (simp_all add: transformVideo_def sampleFields_def cleanTitle_samples)
  have k1: "transformedOf sampleWorld sampleFields (succeeded ?os1)
      = [(js ''a'', \<lparr>vod_id = Finite 10, vod_fields = js ''a''\<rparr>),
         (js ''b'', \<lparr>vod_id = Finite 11, vod_fields = js ''b''\<rparr>)]"
    by (simp add: t v)
  have k2: "transformedOf sampleWorld sampleFields (succeeded ?os2) = []"
    by (simp add: t)
  have d: "dateNow sampleWorld 3 = 0"
    by (simp add: dateNow_def sampleWorld_def epochEngine_def)
  have p: "videoIds (detailParams ids) = Some ids" for ids
    by (simp add: detailParams_def)
  have n: "[js ''a'', js ''bad'', js ''untitled'', js ''b''] \<noteq> []"
      "[js ''bad'', js ''untitled''] \<noteq> []"
    by simp_all
  have h1: "handleVideoDetail sampleWorld sampleFields
      (detailParams [js ''a'', js ''bad'', js ''untitled'', js ''b'']) 0
     = (Inr (createCachedResponse
               \<lparr>code = 1, msg = MSG_DATA_LIST, r_page = 1, pagecount = Finite 1,
                r_limit = 2, total = 2,
                r_list = Some [\<lparr>vod_id = Finite 10, vod_fields = js ''a''\<rparr>,
                               \<lparr>vod_id = Finite 11, vod_fields = js ''b''\<rparr>],
                r_class = None, r_error = None\<rparr>
               CacheDetail), 5)"
    using handleVideoDetail_partial_failure[of
        "detailParams [js ''a'', js ''bad'', js ''untitled'', js ''b'']"
        "[js ''a'', js ''bad'', js ''untitled'', js ''b'']" sampleWorld 0 ?os1 5
        "[(js ''a'', \<lparr>vod_id = Finite 10, vod_fields = js ''a''\<rparr>),
          (js ''b'', \<lparr>vod_id = Finite 11, vod_fields = js ''b''\<rparr>)]"
        sampleFields
        "[\<lparr>vod_id = Finite 10, vod_fields = js ''a''\<rparr>,
          \<lparr>vod_id = Finite 11, vod_fields = js ''b''\<rparr>]"]
      p f1 k1 n(1)
    by simp
  have h2: "handleVideoDetail sampleWorld sampleFields (detailParams [js ''bad'', js ''untitled'']) 0
     = (Inr (createCachedResponse
               (createErrorResponse
                  \<lparr>ed_type = VALIDATION, ed_message = MSG_NO_VALID_DATA, ed_details = None,
                   ed_timestamp = 0\<rparr>)
               CacheError), 3)"
    using handleVideoDetail_partial_failure[of
        "detailParams [js ''bad'', js ''untitled'']"
        "[js ''bad'', js ''untitled'']" sampleWorld 0 ?os2 3 "[]" sampleFields "[]"]
      p f2 k2 n(2) d
    by simp
  show ?thesis using h1 h2 by simp
qed

lemma r_class_errorResponse: "r_class (body (errorResponse d)) = None"
  by (simp add: errorResponse_def createCachedResponse_def createErrorResponse_def)

lemma r_class_transformSearchResponse:
  "transformSearchResponse otherFields resp pg lmt = Inr r \<Longrightarrow> r_class r = None"
  by (auto simp: transformSearchResponse_def Let_def split: sum.splits)

lemma r_class_handleVideoList:
  "handleVideoList w otherFields params s = (Inr resp, s') \<Longrightarrow> r_class (body resp) = None"
  by (auto simp: handleVideoList_def Let_def createCachedResponse_def
      r_class_transformSearchResponse r_class_errorResponse split: sum.splits option.splits)

lemma collect_ac_category:
  "collectParams [(js ''ac'', js ''category'')] = noParams\<lparr>q_ac := Some (js ''category'')\<rparr>"
  by (simp add: collectParams_def noParams_def js_def)

lemma parse_ac_category:
  "action (processParams eng [(js ''ac'', js ''category'')]) = ActionList \<and>
   validateParams (processParams eng [(js ''ac'', js ''category'')]) = \<lparr>valid = True, error = None\<rparr>"
  unfolding processParams_def collect_ac_category
  by (simp add: parseParams_def determineAction_def
      validateParams_def noParams_def parsePage_def parseLimit_def parseKeyword_def
      parseVideoIds_def DEFAULT_PAGE_def DEFAULT_LIMIT_def MIN_LIMIT_def MAX_LIMIT_def
      js_def toLowerCase_def lowerUnit_def)

text \<open>
  Claim C2 says that a query with \<^verbatim>\<open>ac=category\<close> returns the one fixed category record,
  whatever the other parameters. \<^verbatim>\<open>determineAction\<close> has no branch for \<^verbatim>\<open>category\<close>: no
  parameter set whose \<^verbatim>\<open>ac\<close> is \<^verbatim>\<open>category\<close> is resolved to the category action, the query
  \<^verbatim>\<open>ac=category\<close> is resolved to the list action, and whatever the world does, its response
  has no \<^verbatim>\<open>class\<close> list.
\<close>

theorem GET_ac_category_serves_list:
  "(map_option toLowerCase (q_ac params) = Some (js ''category'') \<longrightarrow>
      determineAction params \<noteq> ActionCategory) \<and>
   action (processParams (w_engine w s) [(js ''ac'', js ''category'')]) = ActionList \<and>
   r_class (body (fst (GET w otherFields [(js ''ac'', js ''category'')] s))) = None \<and>
   r_class (body (fst (GET w otherFields [(js ''ac'', js ''category'')] s))) \<noteq> Some generateCategories"
proof -
  have g: "map_option toLowerCase (q_ac params) = Some (js ''category'') \<longrightarrow>
      determineAction params \<noteq> ActionCategory"
    by (auto simp: determineAction_def Let_def js_def)
  let ?q = "[(js ''ac'', js ''category'')]"
  let ?p = "processParams (w_engine w s) ?q"
  have a: "action ?p = ActionList" and v: "valid (validateParams ?p)"
    using parse_ac_category[of "w_engine w s"] by simp_all
  have "r_class (body (fst (GET w otherFields ?q s))) = None"
  proof (cases "w_getCacheTime w s")
    case (Pair r s1)
    show ?thesis
    proof (cases r)
      case (Inl err)
      with Pair a v show ?thesis by (simp add: GET_def Let_def r_class_errorResponse)
    next
      case (Inr ct)
      obtain h s2 where l: "handleVideoList w otherFields ?p s1 = (h, s2)"
        by (cases "handleVideoList w otherFields ?p s1")
      show ?thesis
      proof (cases h)
        case (Inl err)
        with Pair Inr a v l show ?thesis by (simp add: GET_def Let_def r_class_errorResponse)
      next
        case (Inr resp)
        with l have "r_class (body resp) = None" by (simp add: r_class_handleVideoList)
        with Pair \<open>r = Inr ct\<close> Inr a v l show ?thesis by (simp add: GET_def Let_def)
      qed
    qed
  qed
  with a g show ?thesis by simp
qed

theorem GET_ac_category_serves_list_witness:
  "determineAction (noParams\<lparr>q_ac := Some (js ''Category''), q_t := Some (js ''0'')\<rparr>) = ActionList \<and>
   GET sampleWorld sampleFields [(js ''ac'', js ''category'')] 0
     = (createCachedResponse
          \<lparr>code = 1, msg = MSG_DATA_LIST, r_page = 1, pagecount = Finite 2, r_limit = 20,
           total = 25,
           r_list = Some [\<lparr>vod_id = Finite 1, vod_fields = js ''v1''\<rparr>,
                          \<lparr>vod_id = Finite 2, vod_fields = js ''v2''\<rparr>],
           r_class = None, r_error = None\<rparr>
          CacheSearch, 1)"
proof -
  have l: "toLowerCase (js ''Category'') = js ''category''"
    by (simp add: toLowerCase_def lowerUnit_def js_def)
  have d: "determineAction (noParams\<lparr>q_ac := Some (js ''Category''), q_t := Some (js ''0'')\<rparr>)
      = ActionList"
    by (simp add: determineAction_def noParams_def js_def toLowerCase_def lowerUnit_def)
  let ?p = "processParams epochEngine [(js ''ac'', js ''category'')]"
  have p: "?p = \<lparr>action = ActionList, keyword = None, page = 1, limit = 20, categoryId = None,
      videoIds = None,
      filters = \<lparr>f_area = None, f_year = None, f_order = Latest, f_timeRange = None\<rparr>\<rparr>"
    unfolding processParams_def collect_ac_category
    by (simp add: parseParams_def determineAction_def noParams_def parsePage_def
        parseLimit_def parseKeyword_def parseVideoIds_def parseCategoryId_def parseFilters_def
        parseOrder_def parseTimeRange_def DEFAULT_PAGE_def DEFAULT_LIMIT_def js_def
        toLowerCase_def lowerUnit_def)
  have v: "validateParams ?p = \<lparr>valid = True, error = None\<rparr>"
    using parse_ac_category[of epochEngine] by simp
  have r: "withRetry (w_search sampleWorld (js ''popular'') 1 20 Latest) 3 1000 2 0
      = \<lparr>outcome = Inr \<lparr>total_count = Some 25, current_page = Some 1, total_pages = None,
               videos = Some [Some (js ''v1''), Some (js ''v2'')]\<rparr>,
         final = 1, calls = 1, sleeps = []\<rparr>"
    by (simp add: withRetry_def withRetry_loop.simps[of _ 3] sampleWorld_def)
  have t: "transformSearchResponse sampleFields
      \<lparr>total_count = Some 25, current_page = Some 1, total_pages = None,
       videos = Some [Some (js ''v1''), Some (js ''v2'')]\<rparr> 1 20
      = Inr \<lparr>code = 1, msg = MSG_DATA_LIST, r_page = 1, pagecount = Finite 2, r_limit = 20,
           total = 25,
           r_list = Some [\<lparr>vod_id = Finite 1, vod_fields = js ''v1''\<rparr>,
                          \<lparr>vod_id = Finite 2, vod_fields = js ''v2''\<rparr>],
           r_class = None, r_error = None\<rparr>"
    by (simp add: transformSearchResponse_def transformVideo_def enumerate_eq_zip upt_rec
        ceilQuotient_def sampleFields_def cleanTitle_samples)
  have e: "w_engine sampleWorld 0 = epochEngine" "w_getCacheTime sampleWorld 0 = (Inr 3600, 0)"
    by (simp_all add: sampleWorld_def)
  have h: "handleVideoList sampleWorld sampleFields ?p 0
      = (Inr (createCachedResponse
          \<lparr>code = 1, msg = MSG_DATA_LIST, r_page = 1, pagecount = Finite 2, r_limit = 20,
           total = 25,
           r_list = Some [\<lparr>vod_id = Finite 1, vod_fields = js ''v1''\<rparr>,
                          \<lparr>vod_id = Finite 2, vod_fields = js ''v2''\<rparr>],
           r_class = None, r_error = None\<rparr>
          CacheSearch), 1)"
    unfolding p by (simp add: handleVideoList_def r t)
  have g: "GET sampleWorld sampleFields [(js ''ac'', js ''category'')] 0
     = (createCachedResponse
          \<lparr>code = 1, msg = MSG_DATA_LIST, r_page = 1, pagecount = Finite 2, r_limit = 20,
           total = 25,
           r_list = Some [\<lparr>vod_id = Finite 1, vod_fields = js ''v1''\<rparr>,
                          \<lparr>vod_id = Finite 2, vod_fields = js ''v2''\<rparr>],
           r_class = None, r_error = None\<rparr>
          CacheSearch, 1)"
    using v h p by (simp add: GET_def e)
  show ?thesis
    using l d g
      GET_ac_category_serves_list[of "noParams\<lparr>q_ac := Some (js ''Category''), q_t := Some (js ''0'')\<rparr>"
        sampleWorld 0 sampleFields]
    by (simp only: simp_thms)
qed

section \<open>Properties of the cache key\<close>

text \<open>Base64 is injective on byte lists: the four characters of a group determine its bytes.\<close>

lemma base64Char_inj: "m < 64 \<Longrightarrow> n < 64 \<Longrightarrow> base64Char m = base64Char n \<Longrightarrow> m = n"
  by (simp add: base64Char_def split: if_splits)

lemma base64Char_not_pad: "base64Char n \<noteq> 61"
  by (auto simp: base64Char_def)

lemma split_pair:
  assumes "x < m" "x' < m" "q * m + x = q' * m + (x'::nat)"
  shows "q = q' \<and> x = x'"
proof -
  have l: "(q * m + x) div m = q" using assms(1) by simp
  have r: "(q' * m + x') div m = q'" using assms(2) by simp
  have "(q * m + x) div m = (q' * m + x') div m" using assms(3) by (rule arg_cong)
  then have "q = q'" unfolding l r .
  with assms(3) show ?thesis by simp
qed

lemma sextets_inj3:
  assumes "b < 256" "c < 256" "b' < 256" "c' < 256"
    and 1: "a div 4 = a' div 4"
    and 2: "(a mod 4) * 16 + b div 16 = (a' mod 4) * 16 + b' div 16"
    and 3: "(b mod 16) * 4 + c div 64 = (b' mod 16) * 4 + c' div 64"
    and 4: "c mod 64 = c' mod 64"
  shows "a = a' \<and> b = b' \<and> c = (c'::nat)"
proof -
  have "b div 16 < 16" "b' div 16 < 16" "c div 64 < 4" "c' div 64 < 4"
    using assms(1-4) by simp_all
  from split_pair[OF this(1,2) 2] split_pair[OF this(3,4) 3]
  have e: "a mod 4 = a' mod 4" "b div 16 = b' div 16" "b mod 16 = b' mod 16"
    "c div 64 = c' div 64" by simp_all
  have "a = a'" using 1 e(1) by (metis div_mult_mod_eq)
  moreover have "b = b'" using e(2,3) by (metis div_mult_mod_eq)
  moreover have "c = c'" using e(4) 4 by (metis div_mult_mod_eq)
  ultimately show ?thesis by simp
qed

lemma sextet_bounds:
  "a < 256 \<Longrightarrow> a div 4 < (64::nat)"
  "b < 256 \<Longrightarrow> (a mod 4) * 16 + b div 16 < (64::nat)"
  "c < 256 \<Longrightarrow> (b mod 16) * 4 + c div 64 < (64::nat)"
  "c mod 64 < (64::nat)"
  "(a mod 4) * 16 < (64::nat)"
  "(b mod 16) * 4 < (64::nat)"
proof -
  have a: "a mod 4 < 4" "b mod 16 < 16" by simp_all
  show "a < 256 \<Longrightarrow> a div 4 < (64::nat)" by simp
  show "b < 256 \<Longrightarrow> (a mod 4) * 16 + b div 16 < (64::nat)"
  proof -
    assume "b < 256"
    then have "b div 16 < 16" by simp
    with a(1) show ?thesis by linarith
  qed
  show "c < 256 \<Longrightarrow> (b mod 16) * 4 + c div 64 < (64::nat)"
  proof -
    assume "c < 256"
    then have "c div 64 < 4" by simp
    with a(2) show ?thesis by linarith
  qed
  show "c mod 64 < (64::nat)" by simp
  show "(a mod 4) * 16 < (64::nat)" using a(1) by linarith
  show "(b mod 16) * 4 < (64::nat)" using a(2) by linarith
qed

lemma base64_group3:
  assumes "a < 256" "b < 256" "c < 256" "a' < 256" "b' < 256" "c' < 256"
    and "base64Char (a div 4) = base64Char (a' div 4)"
    and "base64Char ((a mod 4) * 16 + b div 16) = base64Char ((a' mod 4) * 16 + b' div 16)"
    and "base64Char ((b mod 16) * 4 + c div 64) = base64Char ((b' mod 16) * 4 + c' div 64)"
    and "base64Char (c mod 64) = base64Char (c' mod 64)"
  shows "a = a' \<and> b = b' \<and> c = c'"
proof -
  have 1: "a div 4 = a' div 4"
    using assms(1,4) by (intro base64Char_inj[OF _ _ assms(7)]) simp_all
  have 2: "(a mod 4) * 16 + b div 16 = (a' mod 4) * 16 + b' div 16"
    by (rule base64Char_inj[OF sextet_bounds(2)[OF assms(2)] sextet_bounds(2)[OF assms(5)]
          assms(8)])
  have 3: "(b mod 16) * 4 + c div 64 = (b' mod 16) * 4 + c' div 64"
    by (rule base64Char_inj[OF sextet_bounds(3)[OF assms(3)] sextet_bounds(3)[OF assms(6)]
          assms(9)])
  have 4: "c mod 64 = c' mod 64"
    by (rule base64Char_inj[OF sextet_bounds(4) sextet_bounds(4) assms(10)])
  show ?thesis using sextets_inj3[OF assms(2,3,5,6) 1 2 3 4] .
qed

lemma base64_group2:
  assumes "a < 256" "b < 256" "a' < 256" "b' < 256"
    and "base64Char (a div 4) = base64Char (a' div 4)"
    and "base64Char ((a mod 4) * 16 + b div 16) = base64Char ((a' mod 4) * 16 + b' div 16)"
    and "base64Char ((b mod 16) * 4) = base64Char ((b' mod 16) * 4)"
  shows "a = a' \<and> b = b'"
  using base64_group3[of a b 0 a' b' 0] assms by simp

lemma base64_group1:
  assumes "a < 256" "a' < 256"
    and "base64Char (a div 4) = base64Char (a' div 4)"
    and "base64Char ((a mod 4) * 16) = base64Char ((a' mod 4) * 16)"
  shows "a = a'"
  using base64_group3[of a 0 0 a' 0 0] assms by simp

lemma base64_inj:
  "list_all isByte xs \<Longrightarrow> list_all isByte ys \<Longrightarrow> base64 xs = base64 ys \<Longrightarrow> xs = ys"
proof (induction xs arbitrary: ys rule: base64.induct)
  case 1
  then show ?case by (cases ys rule: base64.cases) simp_all
next
  case (2 a)
  note bx = "2.prems"(1) and bys = "2.prems"(2) and eq = "2.prems"(3)
  show ?case
  proof (cases ys rule: base64.cases)
    case 1
    with eq show ?thesis by simp
  next
    case (2 a')
    with bx bys eq have "a = a'"
      by (rule_tac base64_group1) (simp_all add: isByte_def)
    with 2 show ?thesis by simp
  next
    case (3 a' b')
    with eq show ?thesis by (simp add: base64Char_not_pad[symmetric])
  next
    case (4 a' b' c' rest')
    with eq show ?thesis by (simp add: base64Char_not_pad[symmetric])
  qed
next
  case (3 a b)
  note bx = "3.prems"(1) and bys = "3.prems"(2) and eq = "3.prems"(3)
  show ?case
  proof (cases ys rule: base64.cases)
    case 1
    with eq show ?thesis by simp
  next
    case (2 a')
    with eq show ?thesis by (simp add: base64Char_not_pad)
  next
    case (3 a' b')
    with bx bys eq have "a = a' \<and> b = b'"
      by (rule_tac base64_group2) (simp_all add: isByte_def)
    with 3 show ?thesis by simp
  next
    case (4 a' b' c' rest')
    with eq show ?thesis by (simp add: base64Char_not_pad[symmetric])
  qed
next
  case (4 a b c rest)
  note ih = "4.IH" and bx = "4.prems"(1) and bys = "4.prems"(2) and eq = "4.prems"(3)
  show ?case
  proof (cases ys rule: base64.cases)
    case 1
    with eq show ?thesis by simp
  next
    case (2 a')
    with eq show ?thesis by (simp add: base64Char_not_pad)
  next
    case (3 a' b')
    with eq show ?thesis by (simp add: base64Char_not_pad)
  next
    case (4 a' b' c' rest')
    with bx bys eq have e: "a = a' \<and> b = b' \<and> c = c'"
      by (rule_tac base64_group3) (simp_all add: isByte_def)
    from 4 eq have "base64 rest = base64 rest'" by simp
    with ih[of rest'] bx bys 4 have "rest = rest'" by simp
    with e 4 show ?thesis by simp
  qed
qed

text \<open>Unescaping an encoded string gives the UTF-8 bytes of the string.\<close>

lemma hexDigit_unhex: "n < 16 \<Longrightarrow> unhex (hexDigit n) = n"
  by (simp add: unhex_def hexDigit_def)

lemma unescape_percentByte: "b < 256 \<Longrightarrow> unescape (percentByte b @ rest) = b # unescape rest"
proof -
  assume "b < 256"
  then have "b div 16 < 16" "b mod 16 < 16" by simp_all
  then show ?thesis by (simp add: percentByte_def hexDigit_unhex)
qed

lemma unescape_percent_list:
  "list_all isByte bs \<Longrightarrow> unescape (concat (map percentByte bs) @ rest) = bs @ unescape rest"
  by (induction bs) (simp_all add: isByte_def unescape_percentByte)

lemma utf8Bytes_bytes: "cp < 1114112 \<Longrightarrow> list_all isByte (utf8Bytes cp)"
proof -
  assume a: "cp < 1114112"
  have m: "cp mod 64 < 64" "(cp div 64) mod 64 < 64" "(cp div 4096) mod 64 < 64" by simp_all
  have d: "cp < 2048 \<Longrightarrow> cp div 64 < 32" "cp < 65536 \<Longrightarrow> cp div 4096 < 16"
    "cp div 262144 < 5" using a by simp_all
  show ?thesis using m d by (auto simp: utf8Bytes_def isByte_def)
qed

lemma codePointOfPair_range:
  "isHighSurrogate hi \<Longrightarrow> isLowSurrogate lo \<Longrightarrow>
   65536 \<le> codePointOfPair hi lo \<and> codePointOfPair hi lo < 1114112"
  unfolding isHighSurrogate_def isLowSurrogate_def codePointOfPair_def by arith

lemma unreserved_ascii: "isUnreserved c \<Longrightarrow> c < 128 \<and> c \<noteq> 37"
  by (auto simp: isUnreserved_def isAlnum_def)

lemma ascii_not_surrogate: "c < 128 \<Longrightarrow> \<not> isHighSurrogate c \<and> \<not> isLowSurrogate c"
  by (simp add: isHighSurrogate_def isLowSurrogate_def)

lemma utf8Bytes_ascii: "c < 128 \<Longrightarrow> utf8Bytes c = [c]"
  by (simp add: utf8Bytes_def)

lemma toUTF8_ascii_Cons: "c < 128 \<Longrightarrow> toUTF8 (c # cs) = c # toUTF8 cs"
  by (simp add: ascii_not_surrogate utf8Bytes_ascii)

lemma unescape_percentEncode:
  "cp < 1114112 \<Longrightarrow> unescape (percentEncode cp @ rest) = utf8Bytes cp @ unescape rest"
  by (simp add: percentEncode_def unescape_percent_list utf8Bytes_bytes)

lemma unescape_encode:
  "isString s \<Longrightarrow> encodeURIComponent s = Inr r \<Longrightarrow> unescape r = toUTF8 s"
proof (induction s arbitrary: r rule: encodeURIComponent.induct)
  case 1
  then show ?case by simp
next
  case (2 c cs)
  note ih = "2.IH" and str = "2.prems"(1) and enc = "2.prems"(2)
  have c: "c < 65536" and scs: "isString cs" using str by (simp_all add: isString_def)
  show ?case
  proof (cases "isUnreserved c")
    case True
    with enc obtain r' where r': "encodeURIComponent cs = Inr r'" "r = c # r'"
      by (auto simp: prependTo_def split: sum.splits)
    from ih(1)[OF True scs r'(1)] True r' show ?thesis
      using unreserved_ascii[OF True] by (simp add: toUTF8_ascii_Cons del: toUTF8.simps(2))
  next
    case False
    note nu = this
    show ?thesis
    proof (cases "isHighSurrogate c")
      case True
      with nu enc obtain d ds r' where d: "cs = d # ds" "isLowSurrogate d"
        "encodeURIComponent ds = Inr r'" "r = percentEncode (codePointOfPair c d) @ r'"
        by (auto simp: prependTo_def split: sum.splits list.splits if_splits)
      have "isString ds" using scs d(1) by (simp add: isString_def)
      from ih(2)[OF nu True d(1) d(2) this d(3)] d True nu show ?thesis
        using codePointOfPair_range[OF True d(2)] by (simp add: unescape_percentEncode)
    next
      case False
      with nu enc obtain r' where r': "\<not> isLowSurrogate c" "encodeURIComponent cs = Inr r'"
        "r = percentEncode c @ r'"
        by (auto simp: prependTo_def split: sum.splits if_splits)
      from ih(3)[OF nu False r'(1) scs r'(2)] r' False nu c show ?thesis
        by (simp add: unescape_percentEncode)
    qed
  qed
qed

text \<open>Decoding the UTF-8 bytes of a string without unpaired surrogate gives the string back, so \<^verbatim>\<open>encodeURIComponent\<close> is injective where it returns.\<close>

lemma recompose3: "(x div 4096) * 4096 + ((x div 64) mod 64) * 64 + x mod 64 = (x::nat)"
proof -
  have a: "x div 4096 = (x div 64) div 64" by (simp add: div_mult2_eq)
  show ?thesis
    unfolding a using div_mult_mod_eq[of x 64] div_mult_mod_eq[of "x div 64" 64] by linarith
qed

lemma recompose4:
  "(x div 262144) * 262144 + ((x div 4096) mod 64) * 4096 + ((x div 64) mod 64) * 64 + x mod 64
     = (x::nat)"
proof -
  have a: "x div 262144 = (x div 4096) div 64" by (simp add: div_mult2_eq)
  have "(x div 262144) * 262144 + ((x div 4096) mod 64) * 4096 = (x div 4096) * 4096"
    unfolding a using div_mult_mod_eq[of "x div 4096" 64] by linarith
  then show ?thesis using recompose3[of x] by linarith
qed

lemma fromUTF8_bmp: "c < 65536 \<Longrightarrow> fromUTF8 (utf8Bytes c @ rest) = c # fromUTF8 rest"
proof -
  assume c: "c < 65536"
  have m: "c mod 64 < 64" "(c div 64) mod 64 < 64" by simp_all
  consider "c < 128" | "128 \<le> c" "c < 2048" | "2048 \<le> c" by linarith
  then show ?thesis
  proof cases
    case 1
    then show ?thesis by (simp add: utf8Bytes_def)
  next
    case 2
    then have "c div 64 < 32" by simp
    with 2 show ?thesis by (simp add: utf8Bytes_def)
  next
    case 3
    have "c div 4096 < 16" using c by simp
    with 3 c m show ?thesis using recompose3[of c] by (simp add: utf8Bytes_def)
  qed
qed

lemma fromUTF8_pair:
  assumes "isHighSurrogate hi" "isLowSurrogate lo"
  shows "fromUTF8 (utf8Bytes (codePointOfPair hi lo) @ rest) = hi # lo # fromUTF8 rest"
proof -
  let ?cp = "codePointOfPair hi lo"
  have r: "65536 \<le> ?cp" "?cp < 1114112" using codePointOfPair_range[OF assms] by simp_all
  have d: "?cp div 262144 < 5" using r by simp
  have lo: "lo - 56320 < 1024" using assms(2) unfolding isLowSurrogate_def by arith
  have e: "?cp - 65536 = (hi - 55296) * 1024 + (lo - 56320)"
    unfolding codePointOfPair_def by arith
  have q: "(?cp - 65536) div 1024 = hi - 55296" "(?cp - 65536) mod 1024 = lo - 56320"
    unfolding e using lo by simp_all
  have h: "55296 + (hi - 55296) = hi" "56320 + (lo - 56320) = lo"
    using assms unfolding isHighSurrogate_def isLowSurrogate_def by arith+
  have u: "utf8Bytes ?cp = [240 + ?cp div 262144, 128 + (?cp div 4096) mod 64,
      128 + (?cp div 64) mod 64, 128 + ?cp mod 64]"
    using r by (simp add: utf8Bytes_def)
  show ?thesis
    unfolding u using d q h recompose4[of ?cp]
    by (simp add: Let_def)
qed

lemma fromUTF8_toUTF8:
  "isString s \<Longrightarrow> encodeURIComponent s = Inr r \<Longrightarrow> fromUTF8 (toUTF8 s) = s"
proof (induction s arbitrary: r rule: encodeURIComponent.induct)
  case 1
  then show ?case by simp
next
  case (2 c cs)
  note ih = "2.IH" and str = "2.prems"(1) and enc = "2.prems"(2)
  have c: "c < 65536" and scs: "isString cs" using str by (simp_all add: isString_def)
  show ?case
  proof (cases "isUnreserved c")
    case True
    with enc obtain r' where r': "encodeURIComponent cs = Inr r'"
      by (auto simp: prependTo_def split: sum.splits)
    from ih(1)[OF True scs r'] show ?thesis
      using unreserved_ascii[OF True] by (simp add: toUTF8_ascii_Cons del: toUTF8.simps(2))
  next
    case False
    note nu = this
    show ?thesis
    proof (cases "isHighSurrogate c")
      case True
      with nu enc obtain d ds r' where d: "cs = d # ds" "isLowSurrogate d"
        "encodeURIComponent ds = Inr r'"
        by (auto simp: prependTo_def split: sum.splits list.splits if_splits)
      have "isString ds" using scs d(1) by (simp add: isString_def)
      from ih(2)[OF nu True d(1) d(2) this d(3)] d True show ?thesis
        by (simp add: fromUTF8_pair del: fromUTF8.simps)
    next
      case False
      with nu enc obtain r' where r': "\<not> isLowSurrogate c" "encodeURIComponent cs = Inr r'"
        by (auto simp: prependTo_def split: sum.splits if_splits)
      from ih(3)[OF nu False r'(1) scs r'(2)] r' False c show ?thesis
        by (simp add: fromUTF8_bmp del: fromUTF8.simps)
    qed
  qed
qed

lemma encodeURIComponent_inj:
  assumes "isString a" "isString b" "encodeURIComponent a = Inr r" "encodeURIComponent b = Inr r"
  shows "a = b"
proof -
  have "toUTF8 a = toUTF8 b"
    using unescape_encode[OF assms(1,3)] unescape_encode[OF assms(2,4)] by simp
  then have "fromUTF8 (toUTF8 a) = fromUTF8 (toUTF8 b)" by simp
  then show ?thesis
    using fromUTF8_toUTF8[OF assms(1,3)] fromUTF8_toUTF8[OF assms(2,4)] by simp
qed

text \<open>What \<^verbatim>\<open>encodeURIComponent\<close> returns is ASCII, and an ASCII block inside a string is written to UTF-8 on its own.\<close>

lemma hexDigit_ascii: "n < 16 \<Longrightarrow> hexDigit n < 128"
  by (simp add: hexDigit_def)

lemma percentByte_ascii: "b < 256 \<Longrightarrow> list_all (\<lambda>c. c < 128) (percentByte b)"
proof -
  assume "b < 256"
  then have "b div 16 < 16" "b mod 16 < 16" by simp_all
  then show ?thesis by (simp add: percentByte_def hexDigit_ascii)
qed

lemma percent_list_ascii:
  "list_all isByte bs \<Longrightarrow> list_all (\<lambda>c. c < 128) (concat (map percentByte bs))"
  by (induction bs) (simp_all add: isByte_def percentByte_ascii)

lemma percentEncode_ascii: "cp < 1114112 \<Longrightarrow> list_all (\<lambda>c. c < 128) (percentEncode cp)"
  unfolding percentEncode_def by (intro percent_list_ascii utf8Bytes_bytes)

lemma encodeURIComponent_ascii:
  "isString s \<Longrightarrow> encodeURIComponent s = Inr r \<Longrightarrow> list_all (\<lambda>c. c < 128) r"
proof (induction s arbitrary: r rule: encodeURIComponent.induct)
  case 1
  then show ?case by simp
next
  case (2 c cs)
  note ih = "2.IH" and str = "2.prems"(1) and enc = "2.prems"(2)
  have c: "c < 65536" and scs: "isString cs" using str by (simp_all add: isString_def)
  show ?case
  proof (cases "isUnreserved c")
    case True
    with enc obtain r' where r': "encodeURIComponent cs = Inr r'" "r = c # r'"
      by (auto simp: prependTo_def split: sum.splits)
    from ih(1)[OF True scs r'(1)] r'(2) show ?thesis
      using unreserved_ascii[OF True] by simp
  next
    case False
    note nu = this
    show ?thesis
    proof (cases "isHighSurrogate c")
      case True
      with nu enc obtain d ds r' where d: "cs = d # ds" "isLowSurrogate d"
        "encodeURIComponent ds = Inr r'" "r = percentEncode (codePointOfPair c d) @ r'"
        by (auto simp: prependTo_def split: sum.splits list.splits if_splits)
      have "isString ds" using scs d(1) by (simp add: isString_def)
      from ih(2)[OF nu True d(1) d(2) this d(3)] d(4) show ?thesis
        using codePointOfPair_range[OF True d(2)] by (simp add: percentEncode_ascii)
    next
      case False
      with nu enc obtain r' where r': "\<not> isLowSurrogate c" "encodeURIComponent cs = Inr r'"
        "r = percentEncode c @ r'"
        by (auto simp: prependTo_def split: sum.splits if_splits)
      from ih(3)[OF nu False r'(1) scs r'(2)] r'(3) c show ?thesis
        by (simp add: percentEncode_ascii)
    qed
  qed
qed

lemma toUTF8_append_ascii:
  "c < 128 \<Longrightarrow> toUTF8 (xs @ c # ys) = toUTF8 xs @ c # toUTF8 ys"
proof (induction xs rule: toUTF8.induct)
  case 1
  then show ?case by (simp add: toUTF8_ascii_Cons del: toUTF8.simps(2))
next
  case (2 x xs)
  have nl: "\<not> isLowSurrogate c" using ascii_not_surrogate[OF "2.prems"] by simp
  have t: "toUTF8 (c # ys) = c # toUTF8 ys" using "2.prems" by (rule toUTF8_ascii_Cons)
  show ?case
  proof (cases "isHighSurrogate x")
    case True
    show ?thesis
    proof (cases xs)
      case Nil
      with True nl t show ?thesis by (simp del: toUTF8.simps(2) add: toUTF8.simps(2)[of x])
    next
      case (Cons d ds)
      show ?thesis
      proof (cases "isLowSurrogate d")
        case l: True
        from "2.IH"(1)[OF True Cons l "2.prems"] True Cons l show ?thesis
          by (simp del: toUTF8.simps(2) add: toUTF8.simps(2)[of x])
      next
        case l: False
        from "2.IH"(2)[OF True Cons l "2.prems"] True Cons l show ?thesis
          by (simp del: toUTF8.simps(2) add: toUTF8.simps(2)[of x])
      qed
    qed
  next
    case False
    show ?thesis
    proof (cases "isLowSurrogate x")
      case l: True
      from "2.IH"(3)[OF False l "2.prems"] False l show ?thesis
        by (simp del: toUTF8.simps(2) add: toUTF8.simps(2)[of x])
    next
      case l: False
      from "2.IH"(4)[OF False l "2.prems"] False l show ?thesis
        by (simp del: toUTF8.simps(2) add: toUTF8.simps(2)[of x])
    qed
  qed
qed

lemma toUTF8_ascii: "list_all (\<lambda>c. c < 128) e \<Longrightarrow> toUTF8 (e @ ys) = e @ toUTF8 ys"
  by (induction e) (simp_all add: toUTF8_ascii_Cons del: toUTF8.simps(2))

lemma toUTF8_ascii_block:
  "c < 128 \<Longrightarrow> list_all (\<lambda>c. c < 128) e \<Longrightarrow>
   toUTF8 (xs @ (c # e) @ ys) = toUTF8 xs @ (c # e) @ toUTF8 ys"
  using toUTF8_append_ascii[of c xs "e @ ys"] by (simp add: toUTF8_ascii del: toUTF8.simps(2))

lemma toUTF8_bytes: "isString s \<Longrightarrow> list_all isByte (toUTF8 s)"
proof (induction s rule: toUTF8.induct)
  case 1
  then show ?case by simp
next
  case (2 x xs)
  have x: "x < 65536" and sxs: "isString xs" using "2.prems" by (simp_all add: isString_def)
  have rep: "list_all isByte [239, 191, 189]" by (simp add: isByte_def)
  show ?case
  proof (cases "isHighSurrogate x")
    case True
    show ?thesis
    proof (cases xs)
      case Nil
      with True rep show ?thesis by simp
    next
      case (Cons d ds)
      have sds: "isString ds" using sxs Cons by (simp add: isString_def)
      show ?thesis
      proof (cases "isLowSurrogate d")
        case l: True
        from "2.IH"(1)[OF True Cons l sds] True Cons l show ?thesis
          using codePointOfPair_range[OF True l] by (simp add: utf8Bytes_bytes)
      next
        case l: False
        from "2.IH"(2)[OF True Cons l sxs] True Cons l rep show ?thesis
          by (simp del: toUTF8.simps(2) add: toUTF8.simps(2)[of x])
      qed
    qed
  next
    case False
    show ?thesis
    proof (cases "isLowSurrogate x")
      case l: True
      from "2.IH"(3)[OF False l sxs] False l rep show ?thesis
        by (simp del: toUTF8.simps(2) add: toUTF8.simps(2)[of x])
    next
      case l: False
      from "2.IH"(4)[OF False l sxs] False l x show ?thesis
        by (simp del: toUTF8.simps(2) add: toUTF8.simps(2)[of x] utf8Bytes_bytes)
    qed
  qed
qed

text \<open>The key depends on the bindings only, not on the order of the keys.\<close>

lemma generateCacheKey_order:
  assumes "distinct (map fst ps)" "distinct (map fst qs)" "map_of ps = map_of qs"
  shows "generateCacheKey pfx ps = generateCacheKey pfx qs"
proof -
  have "set (map fst ps) = dom (map_of ps)" "set (map fst qs) = dom (map_of qs)"
    by (simp_all add: dom_map_of_conv_image_fst)
  with assms(3) have s: "set (map fst ps) = set (map fst qs)" by simp
  have k: "sort (map fst ps) = sort (map fst qs)"
    by (rule sorted_distinct_set_unique) (use s assms(1,2) in simp_all)
  have r: "renderParam ps = renderParam qs"
    by (rule ext) (simp add: renderParam_def assms(3))
  show ?thesis by (simp add: generateCacheKey_def k r)
qed

text \<open>The joined string around the piece of one key.\<close>

lemma collectAll_Inr: "collectAll rs = Inr xs \<Longrightarrow> rs = map Inr xs"
  by (induction rs arbitrary: xs rule: collectAll.induct) (auto split: sum.splits)

lemma joinWith_Cons: "ys \<noteq> [] \<Longrightarrow> joinWith sep (x # ys) = x @ sep @ joinWith sep ys"
  by (cases ys) simp_all

lemma joinWith_head: "joinWith sep (x # B) = x @ concat (map (\<lambda>b. sep @ b) B)"
  by (induction B arbitrary: x) (simp_all add: joinWith_Cons)

lemma joinWith_split:
  "joinWith sep (A @ x # B) = concat (map (\<lambda>a. a @ sep) A) @ x @ concat (map (\<lambda>b. sep @ b) B)"
proof (induction A)
  case Nil
  show ?case by (simp add: joinWith_head del: joinWith.simps)
next
  case (Cons a A)
  have "joinWith sep (a # (A @ x # B)) = a @ sep @ joinWith sep (A @ x # B)"
    by (rule joinWith_Cons) simp
  with Cons show ?case by simp
qed

lemma decimalDigits_ascii: "list_all (\<lambda>c. c < 128) (decimalDigits n)"
proof (induction n rule: decimalDigits.induct)
  case (1 n)
  have m: "n mod 10 < 10" by simp
  show ?case
  proof (cases "n < 10")
    case True
    then show ?thesis by (simp add: decimalDigits.simps[of n])
  next
    case False
    with 1 m show ?thesis by (simp add: decimalDigits.simps[of n])
  qed
qed

lemma ascii_isString: "list_all (\<lambda>c. c < 128) s \<Longrightarrow> isString s"
  by (auto simp: isString_def list_all_iff)

lemma String_of_isString: "valueOK v \<Longrightarrow> isString (String_of v)"
proof (cases v)
  case (JInteger n)
  have "list_all (\<lambda>c. c < 128) (String_of (JInteger n))"
    by (simp add: decimalDigits_ascii)
  with JInteger show ?thesis by (simp add: ascii_isString del: String_of.simps)
qed (simp_all add: valueOK_def isString_def js_def)

text \<open>Two objects that differ in the string value of one key give different keys.\<close>

lemma isString_append: "isString (xs @ ys) = (isString xs \<and> isString ys)"
  by (simp add: isString_def)

lemma isString_concat: "\<forall>x\<in>set xs. isString x \<Longrightarrow> isString (concat xs)"
  by (induction xs) (simp_all add: isString_append isString_def)

lemma renderParam_isString:
  assumes "wellFormedParams ps" "distinct (map fst ps)" "k \<in> set (map fst ps)" "renderParam ps k = Inr x"
  shows "isString x"
proof -
  from assms(3) obtain v where v: "(k, v) \<in> set ps" by auto
  with assms(2) have m: "map_of ps k = Some v" by simp
  from v assms(1) have ok: "isString k" "valueOK v"
    by (auto simp: wellFormedParams_def list_all_iff)
  from assms(4) m obtain e where e: "encodeURIComponent (String_of v) = Inr e" "x = k @ [61] @ e"
    by (auto simp: renderParam_def prependTo_def split: sum.splits)
  have "list_all (\<lambda>c. c < 128) e"
    using encodeURIComponent_ascii[OF String_of_isString[OF ok(2)] e(1)] .
  then have "isString e" by (rule ascii_isString)
  with ok(1) e(2) show ?thesis by (simp add: isString_append isString_def)
qed

lemma pieces_isString:
  assumes "wellFormedParams ps" "distinct (map fst ps)" "set ks \<subseteq> set (map fst ps)"
    "map (renderParam ps) ks = map Inr pieces"
  shows "\<forall>x\<in>set pieces. isString x"
proof
  fix x assume "x \<in> set pieces"
  then have "Inr x \<in> set (map (renderParam ps) ks)" using assms(4) by simp
  then obtain k where k: "k \<in> set ks" "renderParam ps k = Inr x" by auto
  with assms(3) have "k \<in> set (map fst ps)" by blast
  from renderParam_isString[OF assms(1,2) this k(2)] show "isString x" .
qed

lemma isString_joinWith:
  "isString sep \<Longrightarrow> \<forall>x\<in>set xs. isString x \<Longrightarrow> isString (joinWith sep xs)"
  by (induction sep xs rule: joinWith.induct) (simp_all add: isString_append isString_def)

lemma generateCacheKey_keyword:
  assumes d: "distinct (map fst ps)" "distinct (map fst qs)"
    and wf: "wellFormedParams ps" "wellFormedParams qs"
    and a: "map_of ps kw = Some (JString a)"
    and b: "map_of qs = (map_of ps)(kw \<mapsto> JString b)"
    and ne: "a \<noteq> b"
    and k1: "generateCacheKey pfx ps = Inr k1"
    and k2: "generateCacheKey pfx qs = Inr k2"
  shows "k1 \<noteq> k2"
proof
  assume eq: "k1 = k2"
  let ?ks = "sort (map fst ps)"
  have dom: "set (map fst ps) = dom (map_of ps)" "set (map fst qs) = dom (map_of qs)"
    by (simp_all add: dom_map_of_conv_image_fst)
  have kwin: "kw \<in> dom (map_of ps)" using a by auto
  have s: "set (map fst ps) = set (map fst qs)"
    unfolding dom b using kwin by auto
  have ks: "sort (map fst qs) = ?ks"
    by (rule sorted_distinct_set_unique) (use s d in simp_all)
  have dk: "distinct ?ks" using d(1) by simp
  have "kw \<in> set ?ks" using kwin dom(1) by simp
  then obtain ks1 ks2 where split: "?ks = ks1 @ kw # ks2"
    by (meson split_list)
  with dk have notin: "kw \<notin> set ks1" "kw \<notin> set ks2" by auto
  have same: "renderParam ps k = renderParam qs k" if "k \<noteq> kw" for k
    using that by (simp add: renderParam_def b)
  have same1: "map (renderParam ps) ks1 = map (renderParam qs) ks1"
    using notin(1) by (intro map_cong refl same) auto
  have same2: "map (renderParam ps) ks2 = map (renderParam qs) ks2"
    using notin(2) by (intro map_cong refl same) auto
  from k1 obtain p1 where p1: "collectAll (map (renderParam ps) ?ks) = Inr p1"
    "k1 = js ''maccms:'' @ pfx @ [58] @ base64 (toUTF8 (joinWith [38] p1))"
    by (auto simp: generateCacheKey_def Let_def split: sum.splits)
  from k2 obtain p2 where p2: "collectAll (map (renderParam qs) ?ks) = Inr p2"
    "k2 = js ''maccms:'' @ pfx @ [58] @ base64 (toUTF8 (joinWith [38] p2))"
    by (auto simp: generateCacheKey_def ks Let_def split: sum.splits)
  note m1 = collectAll_Inr[OF p1(1)] and m2 = collectAll_Inr[OF p2(1)]
  from m1 obtain A x1 B where A: "p1 = A @ x1 # B" "map (renderParam ps) ks1 = map Inr A"
    "renderParam ps kw = Inr x1" "map (renderParam ps) ks2 = map Inr B"
    unfolding split by (auto simp: append_eq_map_conv Cons_eq_map_conv)
  from m2 obtain A' x2 B' where A': "p2 = A' @ x2 # B'" "map (renderParam qs) ks1 = map Inr A'"
    "renderParam qs kw = Inr x2" "map (renderParam qs) ks2 = map Inr B'"
    unfolding split by (auto simp: append_eq_map_conv Cons_eq_map_conv)
  have AA: "A' = A" using A(2) A'(2) same1 by (simp add: inj_map_eq_map[OF inj_Inr, symmetric])
  have BB: "B' = B" using A(4) A'(4) same2 by (simp add: inj_map_eq_map[OF inj_Inr, symmetric])
  from A(3) a obtain e1 where e1: "encodeURIComponent a = Inr e1" "x1 = kw @ [61] @ e1"
    by (auto simp: renderParam_def prependTo_def split: sum.splits)
  from A'(3) b obtain e2 where e2: "encodeURIComponent b = Inr e2" "x2 = kw @ [61] @ e2"
    by (auto simp: renderParam_def prependTo_def split: sum.splits)
  have "(kw, JString a) \<in> set ps" using a by (rule map_of_SomeD)
  with wf(1) have sa: "isString a" by (auto simp: wellFormedParams_def list_all_iff valueOK_def)
  have "map_of qs kw = Some (JString b)" using b by simp
  then have "(kw, JString b) \<in> set qs" by (rule map_of_SomeD)
  with wf(2) have sb: "isString b" by (auto simp: wellFormedParams_def list_all_iff valueOK_def)
  have e12: "e1 \<noteq> e2"
    using encodeURIComponent_inj[OF sa sb e1(1)] e2(1) ne by auto
  have asc: "list_all (\<lambda>c. c < 128) e1" "list_all (\<lambda>c. c < 128) e2"
    using encodeURIComponent_ascii[OF sa e1(1)] encodeURIComponent_ascii[OF sb e2(1)] .
  let ?P = "concat (map (\<lambda>a. a @ [38]) A) @ kw"
  let ?Q = "concat (map (\<lambda>b. [38] @ b) B)"
  have j1: "joinWith [38] p1 = ?P @ (61 # e1) @ ?Q"
    by (simp add: A(1) e1(2) joinWith_split)
  have j2: "joinWith [38] p2 = ?P @ (61 # e2) @ ?Q"
    by (simp add: A'(1) AA BB e2(2) joinWith_split)
  have u1: "toUTF8 (joinWith [38] p1) = toUTF8 ?P @ (61 # e1) @ toUTF8 ?Q"
    unfolding j1 by (rule toUTF8_ascii_block) (simp_all add: asc)
  have u2: "toUTF8 (joinWith [38] p2) = toUTF8 ?P @ (61 # e2) @ toUTF8 ?Q"
    unfolding j2 by (rule toUTF8_ascii_block) (simp_all add: asc)
  have sub: "set ?ks \<subseteq> set (map fst ps)" "set ?ks \<subseteq> set (map fst qs)" using s by simp_all
  have s1: "isString (joinWith [38] p1)"
    by (rule isString_joinWith)
       (simp_all add: isString_def pieces_isString[OF wf(1) d(1) sub(1) m1, unfolded isString_def])
  have s2: "isString (joinWith [38] p2)"
    by (rule isString_joinWith)
       (simp_all add: isString_def pieces_isString[OF wf(2) d(2) sub(2) m2, unfolded isString_def])
  from eq p1(2) p2(2) have "base64 (toUTF8 (joinWith [38] p1)) = base64 (toUTF8 (joinWith [38] p2))"
    by simp
  from base64_inj[OF toUTF8_bytes[OF s1] toUTF8_bytes[OF s2] this]
  have "toUTF8 ?P @ (61 # e1) @ toUTF8 ?Q = toUTF8 ?P @ (61 # e2) @ toUTF8 ?Q"
    unfolding u1 u2 .
  then have "e1 = e2" by simp
  with e12 show False by simp
qed

text \<open>
  Claim C8 says that two parameter maps that differ only in their keyword value yield
  different keys. The source writes the value with \<^verbatim>\<open>String(params[key])\<close>: a keyword that
  is \<^verbatim>\<open>undefined\<close> (as in the parser's intent for a request without keyword) and the
  keyword string \<^verbatim>\<open>"undefined"\<close> are written alike, and the two keys are the same.
\<close>

theorem generateCacheKey_undefined_counterexample:
  "JUndefined \<noteq> JString (js ''undefined'') \<and>
   generateCacheKey (js ''search'') [(js ''keyword'', JUndefined)]
     = Inr (js ''maccms:search:a2V5d29yZD11bmRlZmluZWQ='') \<and>
   generateCacheKey (js ''search'') [(js ''keyword'', JString (js ''undefined''))]
     = Inr (js ''maccms:search:a2V5d29yZD11bmRlZmluZWQ='')"
proof -
  have e: "encodeURIComponent (js ''undefined'') = Inr (js ''undefined'')"
    by (simp add: js_def isUnreserved_def isAlnum_def prependTo_def)
  have u: "toUTF8 (js ''keyword=undefined'') = js ''keyword=undefined''"
    by (simp add: js_def isHighSurrogate_def isLowSurrogate_def utf8Bytes_def)
  have b: "base64 (js ''keyword=undefined'') = js ''a2V5d29yZD11bmRlZmluZWQ=''"
    by (simp add: js_def base64Char_def)
  have j: "js ''keyword'' @ 61 # js ''undefined'' = js ''keyword=undefined''"
    by (simp add: js_def)
  have k: "js ''maccms:'' @ js ''search'' @ 58 # js ''a2V5d29yZD11bmRlZmluZWQ=''
      = js ''maccms:search:a2V5d29yZD11bmRlZmluZWQ=''"
    by (simp add: js_def)
  show ?thesis
    by (simp add: generateCacheKey_def renderParam_def e prependTo_def j u b k)
qed

text \<open>
  Claim C8, amended. \<^verbatim>\<open>generateCacheKey\<close> is a function of the prefix and the bindings
  alone: two parameter objects with the same key-to-value bindings give the same result
  whatever the order in which their keys were supplied. Two well-formed parameter objects
  that differ only in the value of one key \<open>kw\<close> (the keyword), that value being a
  string in both, give different key strings whenever both keys are produced
  (\<^verbatim>\<open>encodeURIComponent\<close> raises a \<^verbatim>\<open>URIError\<close> on a string with an unpaired surrogate).
\<close>

theorem generateCacheKey_order_keyword:
  "(distinct (map fst ps) \<and> distinct (map fst qs) \<and> map_of ps = map_of qs \<longrightarrow>
      generateCacheKey pfx ps = generateCacheKey pfx qs) \<and>
   (distinct (map fst ps) \<and> distinct (map fst qs) \<and> wellFormedParams ps \<and> wellFormedParams qs \<and>
    map_of ps kw = Some (JString a) \<and> map_of qs = (map_of ps)(kw \<mapsto> JString b) \<and> a \<noteq> b \<and>
    generateCacheKey pfx ps = Inr k1 \<and> generateCacheKey pfx qs = Inr k2 \<longrightarrow> k1 \<noteq> k2)"
  using generateCacheKey_order[of ps qs pfx] generateCacheKey_keyword[of ps qs kw a b pfx k1 k2]
  by blast

theorem generateCacheKey_order_keyword_witness:
  "generateCacheKey (js ''search'') [(js ''wd'', JString (js ''cat'')), (js ''pg'', JInteger 2)]
     = Inr (js ''maccms:search:cGc9MiZ3ZD1jYXQ='') \<and>
   generateCacheKey (js ''search'') [(js ''pg'', JInteger 2), (js ''wd'', JString (js ''cat''))]
     = Inr (js ''maccms:search:cGc9MiZ3ZD1jYXQ='') \<and>
   generateCacheKey (js ''search'') [(js ''pg'', JInteger 2), (js ''wd'', JString (js ''dog''))]
     = Inr (js ''maccms:search:cGc9MiZ3ZD1kb2c='') \<and>
   js ''maccms:search:cGc9MiZ3ZD1jYXQ='' \<noteq> js ''maccms:search:cGc9MiZ3ZD1kb2c=''"
proof -
  let ?ps = "[(js ''wd'', JString (js ''cat'')), (js ''pg'', JInteger 2)]"
  let ?qs = "[(js ''pg'', JInteger 2), (js ''wd'', JString (js ''cat''))]"
  let ?rs = "[(js ''pg'', JInteger 2), (js ''wd'', JString (js ''dog''))]"
  have n: "js ''wd'' \<noteq> js ''pg''" "js ''cat'' \<noteq> js ''dog''" by (simp_all add: js_def)
  have d: "distinct (map fst ?ps)" "distinct (map fst ?qs)" "distinct (map fst ?rs)"
    using n by auto
  have m: "map_of ?ps = map_of ?qs" using n by (auto simp: fun_eq_iff)
  have m2: "map_of ?rs = (map_of ?qs)(js ''wd'' \<mapsto> JString (js ''dog''))"
    using n by (auto simp: fun_eq_iff)
  have w: "wellFormedParams ?qs" "wellFormedParams ?rs"
    by (simp_all add: wellFormedParams_def valueOK_def isString_def js_def)
  have srt: "js ''pg'' \<le> js ''wd''"
    by (simp add: js_def)
  have ec: "encodeURIComponent (js ''cat'') = Inr (js ''cat'')"
    "encodeURIComponent (js ''dog'') = Inr (js ''dog'')"
    "encodeURIComponent (decimalDigits 2) = Inr (js ''2'')"
    by (simp_all add: js_def isUnreserved_def isAlnum_def prependTo_def decimalDigits.simps)
  have u: "toUTF8 (js ''pg=2&wd=cat'') = js ''pg=2&wd=cat''"
    "toUTF8 (js ''pg=2&wd=dog'') = js ''pg=2&wd=dog''"
    by (simp_all add: js_def isHighSurrogate_def isLowSurrogate_def utf8Bytes_def)
  have b: "base64 (js ''pg=2&wd=cat'') = js ''cGc9MiZ3ZD1jYXQ=''"
    "base64 (js ''pg=2&wd=dog'') = js ''cGc9MiZ3ZD1kb2c=''"
    by (simp_all add: js_def base64Char_def)
  have j: "js ''pg'' @ 61 # js ''2'' @ 38 # js ''wd'' @ 61 # js ''cat'' = js ''pg=2&wd=cat''"
    "js ''pg'' @ 61 # js ''2'' @ 38 # js ''wd'' @ 61 # js ''dog'' = js ''pg=2&wd=dog''"
    by (simp_all add: js_def)
  have k: "js ''maccms:'' @ js ''search'' @ 58 # js ''cGc9MiZ3ZD1jYXQ=''
      = js ''maccms:search:cGc9MiZ3ZD1jYXQ=''"
    "js ''maccms:'' @ js ''search'' @ 58 # js ''cGc9MiZ3ZD1kb2c=''
      = js ''maccms:search:cGc9MiZ3ZD1kb2c=''"
    by (simp_all add: js_def)
  have q: "generateCacheKey (js ''search'') ?qs = Inr (js ''maccms:search:cGc9MiZ3ZD1jYXQ='')"
    using n by (simp add: generateCacheKey_def renderParam_def srt ec prependTo_def j u b k)
  have r: "generateCacheKey (js ''search'') ?rs = Inr (js ''maccms:search:cGc9MiZ3ZD1kb2c='')"
    using n by (simp add: generateCacheKey_def renderParam_def srt ec prependTo_def j u b k)
  note inst = generateCacheKey_order_keyword[of ?ps ?qs "js ''search''" "js ''wd''" "js ''cat''" "js ''cat''" undefined undefined]
  have "generateCacheKey (js ''search'') ?ps = generateCacheKey (js ''search'') ?qs"
    by (rule inst[THEN conjunct1, THEN mp]) (intro conjI d m)
  with q have p: "generateCacheKey (js ''search'') ?ps = Inr (js ''maccms:search:cGc9MiZ3ZD1jYXQ='')"
    by (simp only:)
  have c: "map_of ?qs (js ''wd'') = Some (JString (js ''cat''))"
    using n by simp
  have "js ''maccms:search:cGc9MiZ3ZD1jYXQ='' \<noteq> js ''maccms:search:cGc9MiZ3ZD1kb2c=''"
    by (rule generateCacheKey_order_keyword[of ?qs ?rs "js ''search''" "js ''wd''" "js ''cat''" "js ''dog''"
          "js ''maccms:search:cGc9MiZ3ZD1jYXQ=''" "js ''maccms:search:cGc9MiZ3ZD1kb2c=''",
          THEN conjunct2, THEN mp])
       (intro conjI d w c m2 n q r)
  with p q r show ?thesis by (simp only: simp_thms)
qed

end
